theory Spec2Isabelle
  imports Main
begin

section \<open>Python values\<close>

text \<open>
  The client is written in Python and handles what \<^verbatim>\<open>response.json()\<close> gives it without
  checking its shape, so the values are modelled untyped, as Python has them: \<open>PNone\<close> is
  \<^verbatim>\<open>None\<close> (and JSON \<^verbatim>\<open>null\<close>), a dictionary is the list of its items in order, with distinct
  keys (\<open>map_of\<close> reads it). JSON numbers with a fraction are left out: no path of the client
  computes with them.
\<close>

datatype pyval =
    PNone
  | PBool bool
  | PInt int
  | PStr string
  | PList "pyval list"
  | PDict "(string \<times> pyval) list"

text \<open>
  The exceptions the modelled code can raise and does not catch. The only handler in the
  source is \<^verbatim>\<open>except ValueError\<close>, around \<^verbatim>\<open>response.json()\<close>; a body that does not parse is
  the value \<open>None\<close> of the field \<open>json\<close> below, and the handler is a branch on it.
\<close>

datatype py_error =
    AttributeError
  | TypeError
  | KeyError
  | IndexError
  | ValueError
  | FileExistsError
  | FileNotFoundError
  | IsADirectoryError
  | NotADirectoryError

text \<open>\<^verbatim>\<open>a == b\<close>: \<^verbatim>\<open>bool\<close> is a subclass of \<^verbatim>\<open>int\<close>, lists compare by position, dictionaries by key.\<close>

primrec py_eq :: "pyval \<Rightarrow> pyval \<Rightarrow> bool" where
  "py_eq PNone = (\<lambda>v. v = PNone)"
| "py_eq (PBool b) = (\<lambda>v. case v of PBool c \<Rightarrow> b = c | PInt n \<Rightarrow> n = (if b then 1 else 0) | _ \<Rightarrow> False)"
| "py_eq (PInt m) = (\<lambda>v. case v of PInt n \<Rightarrow> m = n | PBool c \<Rightarrow> m = (if c then 1 else 0) | _ \<Rightarrow> False)"
| "py_eq (PStr s) = (\<lambda>v. v = PStr s)"
| "py_eq (PList xs) = (\<lambda>v. case v of PList ys \<Rightarrow> list_all2 (\<lambda>f y. f y) (map py_eq xs) ys | _ \<Rightarrow> False)"
| "py_eq (PDict kvs) = (\<lambda>v. case v of
       PDict kws \<Rightarrow> length kvs = length kws \<and>
         list_all (\<lambda>(k, f). case map_of kws k of None \<Rightarrow> False | Some w \<Rightarrow> f w)
           (map (map_prod id py_eq) kvs)
     | _ \<Rightarrow> False)"

text \<open>Truth value of a value in \<^verbatim>\<open>if v:\<close>.\<close>

fun py_truthy :: "pyval \<Rightarrow> bool" where
  "py_truthy PNone = False"
| "py_truthy (PBool b) = b"
| "py_truthy (PInt n) = (n \<noteq> 0)"
| "py_truthy (PStr s) = (s \<noteq> [])"
| "py_truthy (PList xs) = (xs \<noteq> [])"
| "py_truthy (PDict kvs) = (kvs \<noteq> [])"

text \<open>\<^verbatim>\<open>d.get(key, default)\<close>: only a dictionary has the method.\<close>

fun py_get :: "pyval \<Rightarrow> string \<Rightarrow> pyval \<Rightarrow> py_error + pyval" where
  "py_get (PDict kvs) key dflt = Inr (case map_of kvs key of None \<Rightarrow> dflt | Some v \<Rightarrow> v)"
| "py_get _ key dflt = Inl AttributeError"

text \<open>\<^verbatim>\<open>d[key]\<close> with a string key: \<^verbatim>\<open>KeyError\<close> on a dictionary without it, \<^verbatim>\<open>TypeError\<close> on anything else.\<close>

fun py_item :: "pyval \<Rightarrow> string \<Rightarrow> py_error + pyval" where
  "py_item (PDict kvs) key = (case map_of kvs key of None \<Rightarrow> Inl KeyError | Some v \<Rightarrow> Inr v)"
| "py_item _ key = Inl TypeError"

text \<open>\<^verbatim>\<open>for x in v\<close>: the elements of a list, the keys of a dictionary, the characters of a string.\<close>

fun py_iter :: "pyval \<Rightarrow> py_error + pyval list" where
  "py_iter (PList xs) = Inr xs"
| "py_iter (PDict kvs) = Inr (map (\<lambda>(k, v). PStr k) kvs)"
| "py_iter (PStr s) = Inr (map (\<lambda>c. PStr [c]) s)"
| "py_iter _ = Inl TypeError"

fun is_substring :: "string \<Rightarrow> string \<Rightarrow> bool" where
  "is_substring t [] = (t = [])"
| "is_substring t (c # s) = (take (length t) (c # s) = t \<or> is_substring t s)"

text \<open>\<^verbatim>\<open>x in c\<close>: membership in a list by \<^verbatim>\<open>==\<close>, in a dictionary by key (the key must be
  hashable), in a string as a substring (the left operand must be a string).\<close>

fun py_contains :: "pyval \<Rightarrow> pyval \<Rightarrow> py_error + bool" where
  "py_contains x (PList ys) = Inr (list_ex (py_eq x) ys)"
| "py_contains (PList xs) (PDict kvs) = Inl TypeError"
| "py_contains (PDict xs) (PDict kvs) = Inl TypeError"
| "py_contains x (PDict kvs) = Inr (list_ex (\<lambda>(k, v). x = PStr k) kvs)"
| "py_contains (PStr t) (PStr s) = Inr (is_substring t s)"
| "py_contains x (PStr s) = Inl TypeError"
| "py_contains x _ = Inl TypeError"

text \<open>\<^verbatim>\<open>v[-1]\<close>: the last element of a list, the last character of a string; a dictionary
  has string keys only, so \<^verbatim>\<open>-1\<close> is a missing key.\<close>

fun py_last :: "pyval \<Rightarrow> py_error + pyval" where
  "py_last (PList xs) = (if xs = [] then Inl IndexError else Inr (last xs))"
| "py_last (PStr s) = (if s = [] then Inl IndexError else Inr (PStr [last s]))"
| "py_last (PDict kvs) = Inl KeyError"
| "py_last _ = Inl TypeError"

section \<open>The world the client acts on\<close>

text \<open>
  An f-string, a printed line or a URL is kept as its pieces: literal text and the values
  interpolated into it (\<^verbatim>\<open>str()\<close> of a value is not computed).
\<close>

datatype piece = Lit string | Fmt pyval

type_synonym fstring = "piece list"

text \<open>The JSON bodies the client posts, by their fields.\<close>

datatype payload =
    SiteData string string string string
  | ReportData fstring string pyval string

datatype request = Get fstring | Post fstring "payload option"

text \<open>
  A response as the client reads it: the status code, the result of \<^verbatim>\<open>response.json()\<close>
  (\<open>None\<close> when it raises \<^verbatim>\<open>ValueError\<close>: the body is not JSON) and the raw bytes.
\<close>

record response =
  status_code :: int
  json :: "pyval option"
  content :: string

text \<open>
  The remote service is a parameter: any function from the requests sent so far, the
  current one last, to the response. A request the HTTP library itself gives up on
  (connection refused, time-out) is not modelled: every request is answered.
\<close>

type_synonym service = "request list \<Rightarrow> response"

datatype event =
    Request request
  | Print fstring
  | Sleep nat
  | MakeDirs string
  | WriteFile string string

text \<open>
  The state threaded through every call: the effects so far, in order, and the local
  file system: the directories, each under the name it was made or found with (its
  parents exist with it, see \<open>dir_known\<close> below), and the files with their bytes, each
  under the name it was written with.
\<close>

record world =
  trace :: "event list"
  dirs :: "string set"
  files :: "string \<rightharpoonup> string"

fun requests_of :: "event list \<Rightarrow> request list" where
  "requests_of [] = []"
| "requests_of (Request q # es) = q # requests_of es"
| "requests_of (e # es) = requests_of es"

text \<open>The delays of the \<^verbatim>\<open>time.sleep\<close> calls in a trace, in order.\<close>

fun sleeps_of :: "event list \<Rightarrow> nat list" where
  "sleeps_of [] = []"
| "sleeps_of (Sleep n # es) = n # sleeps_of es"
| "sleeps_of (e # es) = sleeps_of es"

definition emit :: "event \<Rightarrow> world \<Rightarrow> world" where
  "emit e w = w\<lparr>trace := trace w @ [e]\<rparr>"

text \<open>The response to a request sent in a world: the service sees the requests already
  in the trace and this one.\<close>

definition answer :: "service \<Rightarrow> world \<Rightarrow> request \<Rightarrow> response" where
  "answer srv w q = srv (requests_of (trace w) @ [q])"

definition session_get :: "service \<Rightarrow> fstring \<Rightarrow> world \<Rightarrow> response \<times> world" where
  "session_get srv url w = (answer srv w (Get url), emit (Request (Get url)) w)"

definition session_post :: "service \<Rightarrow> fstring \<Rightarrow> payload option \<Rightarrow> world \<Rightarrow> response \<times> world" where
  "session_post srv url body w = (answer srv w (Post url body), emit (Request (Post url body)) w)"

definition py_print :: "fstring \<Rightarrow> world \<Rightarrow> world" where
  "py_print line w = emit (Print line) w"

definition time_sleep :: "nat \<Rightarrow> world \<Rightarrow> world" where
  "time_sleep n w = emit (Sleep n) w"

text \<open>\<^verbatim>\<open>response.status_code in [200, 201, 202]\<close>\<close>

definition ok_status :: "int \<Rightarrow> bool" where
  "ok_status c = (c \<in> set [200, 201, 202])"

definition parse_failed :: fstring where
  "parse_failed = [Lit ''Failed to parse JSON response from the server.'']"

subsection \<open>The local file system\<close>

text \<open>
  A path is read by its components: the pieces between separators, the empty ones
  dropped (\<open>raw_components\<close>) and then the \<^verbatim>\<open>.\<close> ones too (\<open>path_parts\<close>); it is absolute
  when it begins with a separator. \<^verbatim>\<open>..\<close> is not resolved, and a relative path is not
  related to an absolute one.
\<close>

fun split_sep :: "string \<Rightarrow> string \<Rightarrow> string list" where
  "split_sep cur [] = [rev cur]"
| "split_sep cur (c # cs) =
     (if c = CHR ''/'' then rev cur # split_sep [] cs else split_sep (c # cur) cs)"

definition raw_components :: "string \<Rightarrow> string list" where
  "raw_components p = filter (\<lambda>s. s \<noteq> []) (split_sep [] p)"

definition path_parts :: "string \<Rightarrow> string list" where
  "path_parts p = filter (\<lambda>s. s \<noteq> ''.'') (raw_components p)"

definition path_abs :: "string \<Rightarrow> bool" where
  "path_abs p = (p \<noteq> [] \<and> hd p = CHR ''/'')"

text \<open>
  The directory with the components \<open>parts\<close> exists when it is the current directory or
  the root (no components) or when it is a directory of \<open>dirs\<close> or an ancestor of one:
  a directory that \<^verbatim>\<open>os.makedirs\<close> has made has all its parents.
\<close>

definition dir_known :: "world \<Rightarrow> bool \<Rightarrow> string list \<Rightarrow> bool" where
  "dir_known w absolute parts =
     (parts = [] \<or>
      (\<exists>d \<in> dirs w. path_abs d = absolute \<and> take (length parts) (path_parts d) = parts))"

definition is_directory :: "world \<Rightarrow> string \<Rightarrow> bool" where
  "is_directory w p = (p \<noteq> [] \<and> dir_known w (path_abs p) (path_parts p))"

text \<open>\<^verbatim>\<open>os.path.exists(p)\<close>: a directory, under any spelling of its separators, or a file
  under the name it was written with.\<close>

definition os_path_exists :: "world \<Rightarrow> string \<Rightarrow> bool" where
  "os_path_exists w p = (is_directory w p \<or> files w p \<noteq> None)"

text \<open>The paths above the last component of \<open>p\<close>, as the prefixes of \<open>p\<close> that end before a
  separator; one of them being a file makes every use of \<open>p\<close> a \<^verbatim>\<open>NotADirectoryError\<close>.\<close>

definition strip_sep :: "string \<Rightarrow> string" where
  "strip_sep p = rev (dropWhile (\<lambda>c. c = CHR ''/'') (rev p))"

fun sep_prefixes :: "string \<Rightarrow> string \<Rightarrow> string list" where
  "sep_prefixes seen [] = []"
| "sep_prefixes seen (c # cs) =
     (if c = CHR ''/'' \<and> seen \<noteq> [] \<and> hd seen \<noteq> CHR ''/'' then [rev seen] else [])
     @ sep_prefixes (c # seen) cs"

definition has_file_ancestor :: "world \<Rightarrow> string \<Rightarrow> bool" where
  "has_file_ancestor w p = list_ex (\<lambda>q. files w q \<noteq> None) (sep_prefixes [] (strip_sep p))"

text \<open>
  \<^verbatim>\<open>os.makedirs(p)\<close> without \<^verbatim>\<open>exist_ok\<close>: the empty path does not exist, a file on the way
  is not a directory, and a path that is there already, as a directory or as a file, is an
  error. Otherwise the directory is made, parents included: \<open>p\<close> joins \<open>dirs\<close>, and
  \<open>dir_known\<close> finds its parents with it.
\<close>

definition os_makedirs :: "string \<Rightarrow> world \<Rightarrow> py_error + world" where
  "os_makedirs p w =
     (if p = [] then Inl FileNotFoundError
      else if has_file_ancestor w p then Inl NotADirectoryError
      else if os_path_exists w p \<or> files w (strip_sep p) \<noteq> None then Inl FileExistsError
      else Inr (emit (MakeDirs p) (w\<lparr>dirs := insert p (dirs w)\<rparr>)))"

text \<open>\<^verbatim>\<open>os.path.join(a, b)\<close> on POSIX: an absolute \<open>b\<close> replaces \<open>a\<close>, and no second
  separator is added after one.\<close>

definition os_path_join :: "string \<Rightarrow> string \<Rightarrow> string" where
  "os_path_join a b =
     (if b \<noteq> [] \<and> hd b = CHR ''/'' then b
      else if a = [] \<or> last a = CHR ''/'' then a @ b
      else a @ ''/'' @ b)"

text \<open>The directory that holds the last component of \<open>p\<close>, and whether \<open>p\<close> is the name of
  a directory: by a separator at its end, by a last component \<^verbatim>\<open>.\<close> or \<^verbatim>\<open>..\<close>, or by being
  one.\<close>

definition parent_parts :: "string \<Rightarrow> string list" where
  "parent_parts p = filter (\<lambda>s. s \<noteq> ''.'') (butlast (raw_components p))"

definition names_directory :: "world \<Rightarrow> string \<Rightarrow> bool" where
  "names_directory w p =
     (last p = CHR ''/'' \<or> last (raw_components p) = ''.'' \<or> last (raw_components p) = ''..''
      \<or> is_directory w p)"

text \<open>
  \<^verbatim>\<open>with open(p, 'wb') as file: for content in response.iter_content(): file.write(content)\<close>:
  the file ends up holding the whole body. Opening fails on the empty path, below a file,
  in a directory that does not exist, and on the name of a directory.
\<close>

definition write_file :: "string \<Rightarrow> string \<Rightarrow> world \<Rightarrow> py_error + world" where
  "write_file p bytes w =
     (if p = [] then Inl FileNotFoundError
      else if has_file_ancestor w p then Inl NotADirectoryError
      else if \<not> dir_known w (path_abs p) (parent_parts p) then Inl FileNotFoundError
      else if names_directory w p then Inl IsADirectoryError
      else Inr (emit (WriteFile p bytes) (w\<lparr>files := (files w)(p \<mapsto> bytes)\<rparr>)))"

section \<open>Site\<close>

text \<open>\<^verbatim>\<open>f'{self.api_url}/sites'\<close>\<close>

definition sites_url :: "string \<Rightarrow> fstring" where
  "sites_url api_url = [Lit (api_url @ ''/sites'')]"

text \<open>The loop of \<^verbatim>\<open>get_site_id\<close> over the listed sites; falling out of it returns \<^verbatim>\<open>None\<close>.\<close>

fun find_site :: "string \<Rightarrow> pyval list \<Rightarrow> py_error + pyval" where
  "find_site name [] = Inr PNone"
| "find_site name (site # rest) =
     (case py_get site ''name'' PNone of
        Inl e \<Rightarrow> Inl e
      | Inr n \<Rightarrow> if py_eq n (PStr name) then py_get site ''id'' PNone else find_site name rest)"

definition get_site_id :: "service \<Rightarrow> string \<Rightarrow> string \<Rightarrow> world \<Rightarrow> (py_error + pyval) \<times> world" where
  "get_site_id srv api_url name w =
     (let scan_url = sites_url api_url;
          (response, w1) = session_get srv scan_url w
      in if ok_status (status_code response) then
           (case json response of
              None \<Rightarrow> (Inr PNone, py_print parse_failed w1)
            | Some response_json \<Rightarrow>
                (case py_get response_json ''resources'' (PList []) of
                   Inl e \<Rightarrow> (Inl e, w1)
                 | Inr resources \<Rightarrow>
                     (case py_iter resources of
                        Inl e \<Rightarrow> (Inl e, w1)
                      | Inr sites \<Rightarrow> (find_site name sites, w1))))
         else (Inr PNone, w1))"

definition create_site ::
  "service \<Rightarrow> string \<Rightarrow> string \<Rightarrow> string \<Rightarrow> string \<Rightarrow> string \<Rightarrow> world \<Rightarrow> (py_error + pyval) \<times> world" where
  "create_site srv api_url name description target_ip template_id w =
     (case get_site_id srv api_url name w of
        (Inl e, w1) \<Rightarrow> (Inl e, w1)
      | (Inr site_id, w1) \<Rightarrow>
          if site_id \<noteq> PNone then
            (Inr PNone, py_print [Lit ''Site already exists, using existing site id: '', Fmt site_id] w1)
          else
            (let site_data = SiteData name description target_ip template_id;
                 (response, w2) = session_post srv (sites_url api_url) (Some site_data) w1
             in if ok_status (status_code response)
                then (Inr PNone, py_print [Lit ''Site created successfully''] w2)
                else (Inr PNone, py_print [Lit ''Failed to create site''] w2)))"

text \<open>The two lines of the main script that reconcile the site: create it unless it is
  there, then look its id up.\<close>

definition reconcile_site ::
  "service \<Rightarrow> string \<Rightarrow> string \<Rightarrow> string \<Rightarrow> string \<Rightarrow> string \<Rightarrow> world \<Rightarrow> (py_error + pyval) \<times> world" where
  "reconcile_site srv api_url name description target_ip template_id w =
     (case create_site srv api_url name description target_ip template_id w of
        (Inl e, w1) \<Rightarrow> (Inl e, w1)
      | (Inr _, w1) \<Rightarrow> get_site_id srv api_url name w1)"

section \<open>Scan\<close>

text \<open>\<^verbatim>\<open>f'{self.api_url}/scans'\<close> and \<^verbatim>\<open>f'{self.api_url}/scans/{scan_id}'\<close>\<close>

definition scans_url :: "string \<Rightarrow> fstring" where
  "scans_url api_url = [Lit (api_url @ ''/scans'')]"

definition scan_url :: "string \<Rightarrow> pyval \<Rightarrow> fstring" where
  "scan_url api_url scan_id = [Lit (api_url @ ''/scans/''), Fmt scan_id]"

text \<open>\<^verbatim>\<open>next((link["href"] for link in links if link["rel"] == "last"), None)\<close>: the
  generator stops at the first match, so the links after it are never looked at.\<close>

fun find_last_link :: "pyval list \<Rightarrow> py_error + pyval" where
  "find_last_link [] = Inr PNone"
| "find_last_link (link # links) =
     (case py_item link ''rel'' of
        Inl e \<Rightarrow> Inl e
      | Inr rel \<Rightarrow> if py_eq rel (PStr ''last'') then py_item link ''href'' else find_last_link links)"

definition get_last_scan_id :: "service \<Rightarrow> string \<Rightarrow> world \<Rightarrow> (py_error + pyval) \<times> world" where
  "get_last_scan_id srv api_url w =
     (let (response, w1) = session_get srv (scans_url api_url) w
      in if ok_status (status_code response) then
           (case json response of
              None \<Rightarrow> (Inr PNone, py_print parse_failed w1)
            | Some scan_json \<Rightarrow>
                (case py_get scan_json ''links'' (PList []) of
                   Inl e \<Rightarrow> (Inl e, w1)
                 | Inr links \<Rightarrow>
                     (case py_iter links of
                        Inl e \<Rightarrow> (Inl e, w1)
                      | Inr ls \<Rightarrow>
                          (case find_last_link ls of
                             Inl e \<Rightarrow> (Inl e, w1)
                           | Inr last_page_url \<Rightarrow>
                               (let (response_last_page, w2) =
                                      (if last_page_url \<noteq> PNone
                                       then session_get srv [Fmt last_page_url] w1
                                       else session_get srv (scans_url api_url) w1)
                                in if ok_status (status_code response_last_page) then
                                     (case json response_last_page of
                                        None \<Rightarrow> (Inr PNone, py_print parse_failed w2)
                                      | Some last_page_json \<Rightarrow>
                                          (case py_get last_page_json ''resources'' (PList []) of
                                             Inl e \<Rightarrow> (Inl e, w2)
                                           | Inr resources \<Rightarrow>
                                               if py_truthy resources then
                                                 (case py_last resources of
                                                    Inl e \<Rightarrow> (Inl e, w2)
                                                  | Inr r \<Rightarrow> (py_get r ''id'' PNone, w2))
                                               else (Inr PNone, w2)))
                                   else (Inr PNone, w2))))))
         else (Inr PNone, w1))"

text \<open>
  \<^verbatim>\<open>while True:\<close> with no bound: the function is partial, and \<open>None\<close> is the call that
  never comes back. \<open>Some (Inl e, w)\<close> is an exception leaving the loop, \<open>Some (Inr v, w)\<close>
  a \<^verbatim>\<open>return\<close>.
\<close>

partial_function (option) wait_for_scan_completion ::
  "service \<Rightarrow> string \<Rightarrow> pyval \<Rightarrow> world \<Rightarrow> ((py_error + pyval) \<times> world) option" where
  "wait_for_scan_completion srv api_url scan_id w =
     (let (response, w1) = session_get srv (scan_url api_url scan_id) w
      in if ok_status (status_code response) then
           (case json response of
              None \<Rightarrow>
                wait_for_scan_completion srv api_url scan_id
                  (time_sleep 150 (py_print parse_failed w1))
            | Some scan_json \<Rightarrow>
                (case py_get scan_json ''status'' PNone of
                   Inl e \<Rightarrow> Some (Inl e, w1)
                 | Inr status \<Rightarrow>
                     (let w2 = py_print [Fmt (PInt (status_code response)), Lit '' : '', Fmt status] w1
                      in if list_ex (py_eq status) [PStr ''finished'', PStr ''stopped''] then
                           Some (Inr PNone, py_print [Lit ''Scan '', Fmt status, Lit '' successfully''] w2)
                         else wait_for_scan_completion srv api_url scan_id (time_sleep 150 w2))))
         else
           wait_for_scan_completion srv api_url scan_id
             (time_sleep 150 (py_print [Fmt (PInt (status_code response))] w1)))"

text \<open>
  One turn of that loop, from the request to the \<^verbatim>\<open>time.sleep(150)\<close>: \<open>Inl\<close> when the turn
  leaves the loop (a \<^verbatim>\<open>return\<close> or an exception), \<open>Inr\<close> the world in which the next turn
  starts. \<open>scan_turns\<close> runs up to \<open>n\<close> turns.
\<close>

definition scan_turn ::
  "service \<Rightarrow> string \<Rightarrow> pyval \<Rightarrow> world \<Rightarrow> ((py_error + pyval) \<times> world) + world" where
  "scan_turn srv api_url scan_id w =
     (let (response, w1) = session_get srv (scan_url api_url scan_id) w
      in if ok_status (status_code response) then
           (case json response of
              None \<Rightarrow> Inr (time_sleep 150 (py_print parse_failed w1))
            | Some scan_json \<Rightarrow>
                (case py_get scan_json ''status'' PNone of
                   Inl e \<Rightarrow> Inl (Inl e, w1)
                 | Inr status \<Rightarrow>
                     (let w2 = py_print [Fmt (PInt (status_code response)), Lit '' : '', Fmt status] w1
                      in if list_ex (py_eq status) [PStr ''finished'', PStr ''stopped''] then
                           Inl (Inr PNone, py_print [Lit ''Scan '', Fmt status, Lit '' successfully''] w2)
                         else Inr (time_sleep 150 w2))))
         else Inr (time_sleep 150 (py_print [Fmt (PInt (status_code response))] w1)))"

fun scan_turns ::
  "service \<Rightarrow> string \<Rightarrow> pyval \<Rightarrow> nat \<Rightarrow> world \<Rightarrow> ((py_error + pyval) \<times> world) + world" where
  "scan_turns srv api_url scan_id 0 w = Inr w"
| "scan_turns srv api_url scan_id (Suc n) w =
     (case scan_turn srv api_url scan_id w of
        Inl out \<Rightarrow> Inl out
      | Inr w' \<Rightarrow> scan_turns srv api_url scan_id n w')"

section \<open>ReportGeneration\<close>

text \<open>\<^verbatim>\<open>f'{self.api_url}/reports'\<close> and \<^verbatim>\<open>f'{self.api_url}/reports/{report_id}/history/latest'\<close>\<close>

definition reports_url :: "string \<Rightarrow> fstring" where
  "reports_url api_url = [Lit (api_url @ ''/reports'')]"

definition report_history_url :: "string \<Rightarrow> pyval \<Rightarrow> fstring" where
  "report_history_url api_url report_id =
     [Lit (api_url @ ''/reports/''), Fmt report_id, Lit ''/history/latest'']"

text \<open>The body \<^verbatim>\<open>report_data\<close> of the creation request.\<close>

definition report_data :: "pyval \<Rightarrow> pyval \<Rightarrow> string \<Rightarrow> string \<Rightarrow> string \<Rightarrow> payload" where
  "report_data site_id scan_id name file_format template =
     ReportData [Lit (name @ '' report - scan ID ''), Fmt scan_id] file_format site_id template"

text \<open>The loop of \<^verbatim>\<open>get_existing_report\<close> over the listed report configurations.\<close>

fun find_report :: "pyval \<Rightarrow> pyval list \<Rightarrow> py_error + pyval" where
  "find_report site_id [] = Inr PNone"
| "find_report site_id (report # rest) =
     (case py_get report ''scope'' (PDict []) of
        Inl e \<Rightarrow> Inl e
      | Inr scope \<Rightarrow>
          (case py_get scope ''sites'' (PList []) of
             Inl e \<Rightarrow> Inl e
           | Inr sites \<Rightarrow>
               (case py_contains site_id sites of
                  Inl e \<Rightarrow> Inl e
                | Inr found \<Rightarrow>
                    if found then py_get report ''id'' PNone else find_report site_id rest)))"

definition get_existing_report :: "service \<Rightarrow> string \<Rightarrow> pyval \<Rightarrow> world \<Rightarrow> (py_error + pyval) \<times> world" where
  "get_existing_report srv api_url site_id w =
     (let (response, w1) = session_get srv (reports_url api_url) w
      in if ok_status (status_code response) then
           (case json response of
              None \<Rightarrow> (Inr PNone, py_print parse_failed w1)
            | Some response_json \<Rightarrow>
                (case py_get response_json ''resources'' (PList []) of
                   Inl e \<Rightarrow> (Inl e, w1)
                 | Inr resources \<Rightarrow>
                     (case py_iter resources of
                        Inl e \<Rightarrow> (Inl e, w1)
                      | Inr reports \<Rightarrow> (find_report site_id reports, w1))))
         else (Inr PNone, w1))"

text \<open>The part of \<^verbatim>\<open>create_report\<close> after the lookup: the creation request. Here
  \<^verbatim>\<open>response.json()\<close> is outside any \<^verbatim>\<open>try\<close>, so its \<^verbatim>\<open>ValueError\<close> leaves the function.\<close>

definition post_report ::
  "service \<Rightarrow> string \<Rightarrow> pyval \<Rightarrow> pyval \<Rightarrow> string \<Rightarrow> string \<Rightarrow> string \<Rightarrow> world \<Rightarrow> (py_error + pyval) \<times> world" where
  "post_report srv api_url site_id scan_id name file_format template w =
     (let (response, w1) =
            session_post srv (reports_url api_url)
              (Some (report_data site_id scan_id name file_format template)) w
      in if ok_status (status_code response) then
           (case json response of
              None \<Rightarrow> (Inl ValueError, w1)
            | Some report_config_json \<Rightarrow>
                (case py_get report_config_json ''id'' PNone of
                   Inl e \<Rightarrow> (Inl e, w1)
                 | Inr report_id \<Rightarrow>
                     (Inr report_id,
                      py_print [Lit ''Report configuration created successfully, report ID:'', Lit '' '', Fmt report_id] w1)))
         else (Inr PNone, py_print [Lit ''Failed to create report configuration''] w1))"

definition create_report ::
  "service \<Rightarrow> string \<Rightarrow> pyval \<Rightarrow> pyval \<Rightarrow> string \<Rightarrow> string \<Rightarrow> string \<Rightarrow> world \<Rightarrow> (py_error + pyval) \<times> world" where
  "create_report srv api_url site_id scan_id name file_format template w =
     (case get_existing_report srv api_url site_id w of
        (Inl e, w1) \<Rightarrow> (Inl e, w1)
      | (Inr report_id, w1) \<Rightarrow>
          if py_truthy report_id then (Inr report_id, py_print [Lit ''Using existing report''] w1)
          else post_report srv api_url site_id scan_id name file_format template w1)"

partial_function (option) wait_for_report_completion ::
  "service \<Rightarrow> string \<Rightarrow> pyval \<Rightarrow> world \<Rightarrow> ((py_error + pyval) \<times> world) option" where
  "wait_for_report_completion srv api_url report_id w =
     (let (response, w1) = session_get srv (report_history_url api_url report_id) w
      in if ok_status (status_code response) then
           (case json response of
              None \<Rightarrow>
                wait_for_report_completion srv api_url report_id
                  (time_sleep 30 (py_print parse_failed w1))
            | Some report_json \<Rightarrow>
                (case py_get report_json ''status'' PNone of
                   Inl e \<Rightarrow> Some (Inl e, w1)
                 | Inr status \<Rightarrow>
                     (case py_get report_json ''generated'' PNone of
                        Inl e \<Rightarrow> Some (Inl e, w1)
                      | Inr timestamp \<Rightarrow>
                          if py_eq status (PStr ''complete'') then
                            Some (Inr timestamp, py_print [Lit ''Report completed successfully''] w1)
                          else wait_for_report_completion srv api_url report_id (time_sleep 30 w1))))
         else wait_for_report_completion srv api_url report_id (time_sleep 30 w1))"

section \<open>ReportDownloader\<close>

text \<open>\<^verbatim>\<open>f'{self.api_url}/reports/{report_id}/history/{instance}/output'\<close>\<close>

definition download_url :: "string \<Rightarrow> pyval \<Rightarrow> string \<Rightarrow> fstring" where
  "download_url api_url report_id instance =
     [Lit (api_url @ ''/reports/''), Fmt report_id, Lit (''/history/'' @ instance @ ''/output'')]"

definition download_failed :: "int \<Rightarrow> fstring" where
  "download_failed code = [Lit ''Failed to download report. Status code: '', Fmt (PInt code)]"

text \<open>
  The first half of \<^verbatim>\<open>download_report\<close>: the directory and \<^verbatim>\<open>save_path\<close>. With both
  \<^verbatim>\<open>directory_name\<close> and \<^verbatim>\<open>address\<close> given, the path tested is \<^verbatim>\<open>directory_name\<close> and the
  directory made is \<^verbatim>\<open>f"{directory_name}_{address}"\<close>, as in the source.
\<close>

definition resolve_directory ::
  "string option \<Rightarrow> string option \<Rightarrow> string \<Rightarrow> world \<Rightarrow> py_error + (string \<times> world)" where
  "resolve_directory directory_name address save_filename w =
     (case (directory_name, address) of
        (Some d, Some a) \<Rightarrow>
          (case (if \<not> os_path_exists w d then os_makedirs (d @ ''_'' @ a) w else Inr w) of
             Inl e \<Rightarrow> Inl e
           | Inr w1 \<Rightarrow> Inr (os_path_join (d @ ''_'' @ a) save_filename, w1))
      | _ \<Rightarrow>
          (case (if \<not> os_path_exists w ''reports'' then os_makedirs ''reports'' w else Inr w) of
             Inl e \<Rightarrow> Inl e
           | Inr w1 \<Rightarrow> Inr (os_path_join ''reports'' save_filename, w1)))"

definition download_report ::
  "service \<Rightarrow> string \<Rightarrow> pyval \<Rightarrow> string \<Rightarrow> string option \<Rightarrow> string option \<Rightarrow> string \<Rightarrow> world
     \<Rightarrow> (py_error + pyval) \<times> world" where
  "download_report srv api_url report_id instance directory_name address save_filename w =
     (case resolve_directory directory_name address save_filename w of
        Inl e \<Rightarrow> (Inl e, w)
      | Inr (save_path, w1) \<Rightarrow>
          (let (response, w2) = session_get srv (download_url api_url report_id instance) w1
           in if status_code response = 200 then
                (case write_file save_path (content response) w2 of
                   Inl e \<Rightarrow> (Inl e, w2)
                 | Inr w3 \<Rightarrow>
                     (Inr (PStr save_path),
                      py_print [Lit (''Report downloaded and saved to '' @ save_path)] w3))
              else
                (Inr PNone,
                 py_print (download_failed (status_code response)) w2)))"

section \<open>Notions of the specification and concrete inputs\<close>

text \<open>The path \<^verbatim>\<open>download_report\<close> tests with \<^verbatim>\<open>os.path.exists\<close>, and the directory it
  makes and saves in.\<close>

definition tested_path :: "string option \<Rightarrow> string option \<Rightarrow> string" where
  "tested_path directory_name address =
     (case (directory_name, address) of (Some d, Some a) \<Rightarrow> d | _ \<Rightarrow> ''reports'')"

definition target_directory :: "string option \<Rightarrow> string option \<Rightarrow> string" where
  "target_directory directory_name address =
     (case (directory_name, address) of (Some d, Some a) \<Rightarrow> d @ ''_'' @ a | _ \<Rightarrow> ''reports'')"

text \<open>A world where nothing has happened yet and no path exists, and one with \<^verbatim>\<open>/tmp\<close>.\<close>

definition fresh_world :: world where
  "fresh_world = \<lparr>trace = [], dirs = {}, files = Map.empty\<rparr>"

definition tmp_world :: world where
  "tmp_world = \<lparr>trace = [], dirs = {''/tmp''}, files = Map.empty\<rparr>"

text \<open>The service that gives one response to every request.\<close>

fun always :: "response \<Rightarrow> service" where
  "always r h = r"

definition refused :: "int \<Rightarrow> response" where
  "refused code = \<lparr>status_code = code, json = None, content = []\<rparr>"

definition pdf_200 :: response where
  "pdf_200 = \<lparr>status_code = 200, json = None, content = ''%PDF''\<rparr>"

text \<open>A site listing with one site, \<^verbatim>\<open>{"resources": [{"name": "Office", "id": 7}]}\<close>.\<close>

definition site_listing :: response where
  "site_listing = \<lparr>status_code = 200,
     json = Some (PDict [(''resources'', PList [PDict [(''name'', PStr ''Office''), (''id'', PInt 7)]])]),
     content = []\<rparr>"

text \<open>
  What a lookup can be answered with: an accepted status with a body that is not JSON, or
  an accepted status with a JSON object whose \<^verbatim>\<open>resources\<close> (the empty list when the key
  is missing) is the list \<open>rs\<close>.
\<close>

definition unparseable :: "response \<Rightarrow> bool" where
  "unparseable r = (ok_status (status_code r) \<and> json r = None)"

definition lists_resources :: "response \<Rightarrow> pyval list \<Rightarrow> bool" where
  "lists_resources r rs =
     (ok_status (status_code r) \<and>
      (case json r of None \<Rightarrow> False
       | Some body \<Rightarrow> py_get body ''resources'' (PList []) = Inr (PList rs)))"

text \<open>A listed site that is an object with another name (or none), and a listed report
  configuration that is an object whose scope does not hold the site id.\<close>

fun site_not_named :: "string \<Rightarrow> pyval \<Rightarrow> bool" where
  "site_not_named name (PDict kvs) = (map_of kvs ''name'' \<noteq> Some (PStr name))"
| "site_not_named name _ = False"

fun report_not_scoped :: "pyval \<Rightarrow> pyval \<Rightarrow> bool" where
  "report_not_scoped site_id (PDict kvs) =
     (case map_of kvs ''scope'' of
        None \<Rightarrow> True
      | Some (PDict scope) \<Rightarrow>
          (case map_of scope ''sites'' of
             None \<Rightarrow> True
           | Some sites \<Rightarrow> py_contains site_id sites = Inr False)
      | Some _ \<Rightarrow> False)"
| "report_not_scoped site_id _ = False"

text \<open>A listed report configuration that the lookup takes for the site: an object whose
  scope holds the site id. Its id is its field \<^verbatim>\<open>id\<close>, \<^verbatim>\<open>None\<close> when it has none.\<close>

fun report_scoped :: "pyval \<Rightarrow> pyval \<Rightarrow> bool" where
  "report_scoped site_id (PDict kvs) =
     (case map_of kvs ''scope'' of
        Some (PDict scope) \<Rightarrow>
          (case map_of scope ''sites'' of
             None \<Rightarrow> False
           | Some sites \<Rightarrow> py_contains site_id sites = Inr True)
      | _ \<Rightarrow> False)"
| "report_scoped site_id _ = False"

definition report_id_of :: "pyval \<Rightarrow> pyval" where
  "report_id_of report =
     (case report of
        PDict kvs \<Rightarrow> (case map_of kvs ''id'' of None \<Rightarrow> PNone | Some v \<Rightarrow> v)
      | _ \<Rightarrow> PNone)"

text \<open>A listing whose only resource is named \<^verbatim>\<open>Lab\<close> and scoped to site 9, and a response
  whose body is not JSON.\<close>

definition other_listing :: response where
  "other_listing = \<lparr>status_code = 200,
     json = Some (PDict [(''resources'',
              PList [PDict [(''name'', PStr ''Lab''), (''id'', PInt 3),
                            (''scope'', PDict [(''sites'', PList [PInt 9])])]])]),
     content = []\<rparr>"

definition garbled :: response where
  "garbled = \<lparr>status_code = 200, json = None, content = ''<html>''\<rparr>"

text \<open>
  A first page of the scan listing is an accepted JSON object whose \<^verbatim>\<open>links\<close> (the empty
  list when the key is missing) is the list \<open>ls\<close>; a link that does not stop the search for
  the last page is an object with a \<^verbatim>\<open>rel\<close> other than \<^verbatim>\<open>"last"\<close>.
\<close>

definition lists_links :: "response \<Rightarrow> pyval list \<Rightarrow> bool" where
  "lists_links r ls =
     (ok_status (status_code r) \<and>
      (case json r of None \<Rightarrow> False
       | Some body \<Rightarrow> py_get body ''links'' (PList []) = Inr (PList ls)))"

fun not_last_link :: "pyval \<Rightarrow> bool" where
  "not_last_link (PDict kvs) =
     (case map_of kvs ''rel'' of None \<Rightarrow> False | Some rel \<Rightarrow> rel \<noteq> PStr ''last'')"
| "not_last_link _ = False"

text \<open>Two pages of scans: the first links to the second as \<^verbatim>\<open>last\<close>, the second holds the
  scans 11, 12 and 13. The service hands out the second page at the linked address only.\<close>

definition scan_page_1 :: response where
  "scan_page_1 = \<lparr>status_code = 200,
     json = Some (PDict
       [(''resources'', PList [PDict [(''id'', PInt 1)], PDict [(''id'', PInt 2)]]),
        (''links'', PList
           [PDict [(''href'', PStr ''u/scans?page=0''), (''rel'', PStr ''self'')],
            PDict [(''href'', PStr ''u/scans?page=1''), (''rel'', PStr ''last'')]])]),
     content = []\<rparr>"

definition scan_page_2 :: response where
  "scan_page_2 = \<lparr>status_code = 200,
     json = Some (PDict
       [(''resources'', PList [PDict [(''id'', PInt 11)], PDict [(''id'', PInt 12)], PDict [(''id'', PInt 13)]]),
        (''links'', PList [PDict [(''href'', PStr ''u/scans?page=1''), (''rel'', PStr ''self'')]])]),
     content = []\<rparr>"

definition paged_service :: service where
  "paged_service h =
     (if h \<noteq> [] \<and> last h = Get [Fmt (PStr ''u/scans?page=1'')] then scan_page_2 else scan_page_1)"

text \<open>
  The polls of a wait started in world \<open>w\<close>: the response to its first request is poll 0.
  A poll of the scan wait is terminal when it is an accepted JSON object whose \<^verbatim>\<open>status\<close>
  is \<^verbatim>\<open>finished\<close> or \<^verbatim>\<open>stopped\<close>; it is absorbed when its status code is not accepted,
  or its body is not JSON, or it is a JSON object with any other status (or none).
  An accepted body that is JSON but not an object is neither.
\<close>

definition scan_poll :: "service \<Rightarrow> string \<Rightarrow> pyval \<Rightarrow> world \<Rightarrow> nat \<Rightarrow> response" where
  "scan_poll srv api_url scan_id w i =
     srv (requests_of (trace w) @ replicate (Suc i) (Get (scan_url api_url scan_id)))"

definition scan_terminal :: "response \<Rightarrow> bool" where
  "scan_terminal r =
     (ok_status (status_code r) \<and>
      (case json r of
         Some (PDict kvs) \<Rightarrow>
           map_of kvs ''status'' = Some (PStr ''finished'') \<or> map_of kvs ''status'' = Some (PStr ''stopped'')
       | _ \<Rightarrow> False))"

definition scan_absorbed :: "response \<Rightarrow> bool" where
  "scan_absorbed r =
     (if ok_status (status_code r) then
        (case json r of
           None \<Rightarrow> True
         | Some (PDict kvs) \<Rightarrow>
             map_of kvs ''status'' \<noteq> Some (PStr ''finished'') \<and> map_of kvs ''status'' \<noteq> Some (PStr ''stopped'')
         | Some _ \<Rightarrow> False)
      else True)"

definition status_of :: "response \<Rightarrow> pyval" where
  "status_of r =
     (case json r of
        Some (PDict kvs) \<Rightarrow> (case map_of kvs ''status'' of None \<Rightarrow> PNone | Some v \<Rightarrow> v)
      | _ \<Rightarrow> PNone)"

text \<open>The same for the report wait, whose terminal status is \<^verbatim>\<open>complete\<close> and whose payload
  is the field \<^verbatim>\<open>generated\<close>.\<close>

definition report_poll :: "service \<Rightarrow> string \<Rightarrow> pyval \<Rightarrow> world \<Rightarrow> nat \<Rightarrow> response" where
  "report_poll srv api_url report_id w i =
     srv (requests_of (trace w) @ replicate (Suc i) (Get (report_history_url api_url report_id)))"

definition report_complete :: "response \<Rightarrow> bool" where
  "report_complete r =
     (ok_status (status_code r) \<and>
      (case json r of
         Some (PDict kvs) \<Rightarrow> map_of kvs ''status'' = Some (PStr ''complete'')
       | _ \<Rightarrow> False))"

definition report_absorbed :: "response \<Rightarrow> bool" where
  "report_absorbed r =
     (if ok_status (status_code r) then
        (case json r of
           None \<Rightarrow> True
         | Some (PDict kvs) \<Rightarrow> map_of kvs ''status'' \<noteq> Some (PStr ''complete'')
         | Some _ \<Rightarrow> False)
      else True)"

definition generated_of :: "response \<Rightarrow> pyval" where
  "generated_of r =
     (case json r of
        Some (PDict kvs) \<Rightarrow> (case map_of kvs ''generated'' of None \<Rightarrow> PNone | Some v \<Rightarrow> v)
      | _ \<Rightarrow> PNone)"

text \<open>The service that answers the first requests from a script, in order, and every later
  one with a fixed response; and the bodies \<^verbatim>\<open>{"status": s}\<close> and
  \<^verbatim>\<open>{"status": s, "generated": g}\<close>.\<close>

definition scripted :: "response list \<Rightarrow> response \<Rightarrow> service" where
  "scripted rs r h = (if length h - 1 < length rs then rs ! (length h - 1) else r)"

definition scan_status :: "string \<Rightarrow> response" where
  "scan_status s = \<lparr>status_code = 200, json = Some (PDict [(''status'', PStr s)]), content = []\<rparr>"

definition report_status :: "string \<Rightarrow> pyval \<Rightarrow> response" where
  "report_status s g =
     \<lparr>status_code = 200, json = Some (PDict [(''status'', PStr s), (''generated'', g)]), content = []\<rparr>"

text \<open>
  Services for report reconciliation. The first lists three report configurations, one
  scoped to site 9 and then two scoped to site 7 with the ids 0 and 4, and answers a
  creation with the id 5. The second starts without report configurations, numbers the
  ones it creates from 0, scopes them to site 7 and lists them.
\<close>

fun is_post :: "request \<Rightarrow> bool" where
  "is_post (Post url body) = True"
| "is_post (Get url) = False"

definition two_scoped_listing :: response where
  "two_scoped_listing = \<lparr>status_code = 200,
     json = Some (PDict [(''resources'',
              PList [PDict [(''id'', PInt 3), (''scope'', PDict [(''sites'', PList [PInt 9])])],
                     PDict [(''id'', PInt 0), (''scope'', PDict [(''sites'', PList [PInt 7])])],
                     PDict [(''id'', PInt 4), (''scope'', PDict [(''sites'', PList [PInt 7])])]])]),
     content = []\<rparr>"

definition created_5 :: response where
  "created_5 = \<lparr>status_code = 201, json = Some (PDict [(''id'', PInt 5)]), content = []\<rparr>"

definition two_scoped_service :: service where
  "two_scoped_service h = (if h \<noteq> [] \<and> is_post (last h) then created_5 else two_scoped_listing)"

fun posts_in :: "request list \<Rightarrow> nat" where
  "posts_in [] = 0"
| "posts_in (Post url body # qs) = Suc (posts_in qs)"
| "posts_in (Get url # qs) = posts_in qs"

definition report_entry :: "nat \<Rightarrow> pyval" where
  "report_entry i = PDict [(''id'', PInt (int i)), (''scope'', PDict [(''sites'', PList [PInt 7])])]"

definition counting_service :: service where
  "counting_service h =
     (if h \<noteq> [] \<and> is_post (last h)
      then \<lparr>status_code = 201, json = Some (PDict [(''id'', PInt (int (posts_in (butlast h))))]),
             content = []\<rparr>
      else \<lparr>status_code = 200,
             json = Some (PDict [(''resources'', PList (map report_entry [0..<posts_in h]))]),
             content = []\<rparr>)"

section \<open>Basic facts about the model\<close>

lemma py_eq_PStr [simp]: "py_eq v (PStr s) = (v = PStr s)"
  by (cases v) auto

lemma emit_simps [simp]:
  "trace (emit e w) = trace w @ [e]" "dirs (emit e w) = dirs w" "files (emit e w) = files w"
  by (simp_all add: emit_def)

lemma py_print_simps [simp]:
  "trace (py_print l w) = trace w @ [Print l]" "dirs (py_print l w) = dirs w"
  "files (py_print l w) = files w"
  by (simp_all add: py_print_def)

lemma requests_of_append [simp]: "requests_of (es @ fs) = requests_of es @ requests_of fs"
  by (induction es rule: requests_of.induct) auto

lemma answer_same_requests:
  "requests_of (trace w1) = requests_of (trace w) \<Longrightarrow> answer srv w1 q = answer srv w q"
  by (simp add: answer_def)

section \<open>Site reconciliation\<close>

text \<open>
  Claim C4 (return value of \<^verbatim>\<open>create_site\<close>). The claim has \<^verbatim>\<open>create_site\<close> return the id of the
  site that already exists. On the listing \<^verbatim>\<open>{"resources": [{"name": "Office", "id": 7}]}\<close>
  the lookup \<^verbatim>\<open>get_site_id\<close> finds 7, and \<^verbatim>\<open>create_site\<close> for the same name sends the listing
  request only, no creation request, but returns \<^verbatim>\<open>None\<close>: its \<^verbatim>\<open>return\<close> has no value.
\<close>

theorem create_site_existing_returns_none:
  "fst (get_site_id (always site_listing) ''u'' ''Office'' fresh_world) = Inr (PInt 7) \<and>
   fst (create_site (always site_listing) ''u'' ''Office'' ''d'' ''10.0.0.5'' ''t'' fresh_world) = Inr PNone \<and>
   requests_of (trace (snd (create_site (always site_listing) ''u'' ''Office'' ''d'' ''10.0.0.5'' ''t'' fresh_world)))
     = [Get (sites_url ''u'')]"
  by (simp add: create_site_def get_site_id_def session_get_def answer_def ok_status_def
      site_listing_def fresh_world_def sites_url_def)

lemma get_site_id_requests:
  "requests_of (trace (snd (get_site_id srv api_url name w)))
     = requests_of (trace w) @ [Get (sites_url api_url)]"
  by (simp add: get_site_id_def session_get_def Let_def split: option.splits sum.splits)

lemma get_site_id_answer:
  "answer srv w (Get (sites_url api_url)) = answer srv w' (Get (sites_url api_url))
    \<Longrightarrow> fst (get_site_id srv api_url name w) = fst (get_site_id srv api_url name w')"
  by (simp add: get_site_id_def session_get_def Let_def split: option.splits sum.splits)

text \<open>A site that the lookup finds is not created again: \<^verbatim>\<open>create_site\<close> sends the listing
  request only, and while the service keeps answering the listing the same way, the
  reconciliation of the main script (\<^verbatim>\<open>create_site\<close>, then \<^verbatim>\<open>get_site_id\<close>) yields the id
  found.\<close>

lemma site_reconciliation_idempotent:
  assumes "\<And>h. srv (h @ [Get (sites_url api_url)]) = listing"
    and "fst (get_site_id srv api_url name w) = Inr site_id" and "site_id \<noteq> PNone"
  shows "fst (reconcile_site srv api_url name description target_ip template_id w) = Inr site_id"
    and "requests_of (trace (snd (reconcile_site srv api_url name description target_ip template_id w)))
           = requests_of (trace w) @ [Get (sites_url api_url), Get (sites_url api_url)]"
proof -
  obtain w1 where look: "get_site_id srv api_url name w = (Inr site_id, w1)"
    using assms(2) by (cases "get_site_id srv api_url name w") auto
  have w1: "requests_of (trace w1) = requests_of (trace w) @ [Get (sites_url api_url)]"
    using get_site_id_requests[of srv api_url name w] look by simp
  let ?w2 = "py_print [Lit ''Site already exists, using existing site id: '', Fmt site_id] w1"
  have created: "create_site srv api_url name description target_ip template_id w = (Inr PNone, ?w2)"
    using look assms(3) by (simp add: create_site_def)
  have same: "answer srv ?w2 (Get (sites_url api_url)) = answer srv w (Get (sites_url api_url))"
    by (simp add: answer_def assms(1))
  have again: "fst (get_site_id srv api_url name ?w2) = Inr site_id"
    using get_site_id_answer[OF same, of name] assms(2) by simp
  show "fst (reconcile_site srv api_url name description target_ip template_id w) = Inr site_id"
    by (simp add: reconcile_site_def created again)
  show "requests_of (trace (snd (reconcile_site srv api_url name description target_ip template_id w)))
           = requests_of (trace w) @ [Get (sites_url api_url), Get (sites_url api_url)]"
    using get_site_id_requests[of srv api_url name ?w2] w1
    by (simp add: reconcile_site_def created)
qed

section \<open>Lookups\<close>

lemma find_site_no_match: "list_all (site_not_named name) rs \<Longrightarrow> find_site name rs = Inr PNone"
proof (induction rs)
  case Nil
  then show ?case by simp
next
  case (Cons site rs)
  then show ?case by (cases site) (auto split: option.splits)
qed

lemma find_report_no_match:
  "list_all (report_not_scoped site_id) rs \<Longrightarrow> find_report site_id rs = Inr PNone"
proof (induction rs)
  case Nil
  then show ?case by simp
next
  case (Cons report rs)
  then show ?case by (cases report) (auto split: option.splits pyval.splits)
qed

text \<open>
  Claim C7 (missing and malformed are indistinguishable). A lookup answered with an accepted
  status and a resource list without a match, and the same lookup answered with an accepted
  status and a body that is not JSON, hand the caller the same value, \<^verbatim>\<open>None\<close>; no exception
  and no other value tells the two apart. This holds for \<^verbatim>\<open>get_site_id\<close> and for
  \<^verbatim>\<open>get_existing_report\<close>. (Only the line printed differs.)
\<close>

theorem lookup_missing_vs_malformed:
  assumes "unparseable (answer srv_bad w (Get (sites_url api_url)))"
    and "lists_resources (answer srv_ok w (Get (sites_url api_url))) sites"
    and "list_all (site_not_named name) sites"
    and "unparseable (answer srv_bad w (Get (reports_url api_url)))"
    and "lists_resources (answer srv_ok w (Get (reports_url api_url))) reports"
    and "list_all (report_not_scoped site_id) reports"
  shows "fst (get_site_id srv_ok api_url name w) = Inr PNone
       \<and> fst (get_site_id srv_bad api_url name w) = Inr PNone
       \<and> fst (get_existing_report srv_ok api_url site_id w) = Inr PNone
       \<and> fst (get_existing_report srv_bad api_url site_id w) = Inr PNone"
proof -
  have "fst (get_site_id srv_ok api_url name w) = Inr PNone"
    using assms(2) find_site_no_match[OF assms(3)]
    by (auto simp: get_site_id_def session_get_def lists_resources_def split: option.splits)
  moreover have "fst (get_site_id srv_bad api_url name w) = Inr PNone"
    using assms(1) by (simp add: get_site_id_def session_get_def unparseable_def)
  moreover have "fst (get_existing_report srv_ok api_url site_id w) = Inr PNone"
    using assms(5) find_report_no_match[OF assms(6)]
    by (auto simp: get_existing_report_def session_get_def lists_resources_def split: option.splits)
  moreover have "fst (get_existing_report srv_bad api_url site_id w) = Inr PNone"
    using assms(4) by (simp add: get_existing_report_def session_get_def unparseable_def)
  ultimately show ?thesis by simp
qed

theorem lookup_missing_vs_malformed_witness:
  "unparseable garbled \<and> lists_resources other_listing
      [PDict [(''name'', PStr ''Lab''), (''id'', PInt 3), (''scope'', PDict [(''sites'', PList [PInt 9])])]]
   \<and> fst (get_site_id (always other_listing) ''u'' ''Office'' fresh_world)
       = fst (get_site_id (always garbled) ''u'' ''Office'' fresh_world)
   \<and> fst (get_existing_report (always other_listing) ''u'' (PInt 7) fresh_world)
       = fst (get_existing_report (always garbled) ''u'' (PInt 7) fresh_world)
   \<and> fst (get_existing_report (always garbled) ''u'' (PInt 7) fresh_world) = Inr PNone"
proof -
  let ?rs = "[PDict [(''name'', PStr ''Lab''), (''id'', PInt 3),
                     (''scope'', PDict [(''sites'', PList [PInt 9])])]]"
  have bad: "unparseable (answer (always garbled) fresh_world q)" for q
    by (simp add: unparseable_def answer_def garbled_def ok_status_def)
  have ok: "lists_resources (answer (always other_listing) fresh_world q) ?rs" for q
    by (simp add: lists_resources_def answer_def other_listing_def ok_status_def)
  have s: "list_all (site_not_named ''Office'') ?rs" by simp
  have r: "list_all (report_not_scoped (PInt 7)) ?rs" by simp
  show ?thesis
    using lookup_missing_vs_malformed[OF bad ok s bad ok r]
      bad[of "Get (sites_url ''u'')"] ok[of "Get (sites_url ''u'')"]
    by (simp add: answer_def)
qed

section \<open>Report reconciliation\<close>

lemma get_existing_report_requests:
  "requests_of (trace (snd (get_existing_report srv api_url site_id w)))
     = requests_of (trace w) @ [Get (reports_url api_url)]"
  by (simp add: get_existing_report_def session_get_def split: option.splits sum.splits)

lemma post_report_requests:
  "requests_of (trace (snd (post_report srv api_url site_id scan_id name file_format template w)))
     = requests_of (trace w) @
       [Post (reports_url api_url) (Some (report_data site_id scan_id name file_format template))]"
  by (simp add: post_report_def session_post_def split: option.splits sum.splits)

text \<open>A report configuration found with a truthy id is reused: no creation request, and the
  id found is the id returned.\<close>

lemma create_report_reuses_truthy_id:
  assumes "get_existing_report srv api_url site_id w = (Inr report_id, w1)"
    and "py_truthy report_id"
  shows "create_report srv api_url site_id scan_id name file_format template w
           = (Inr report_id, py_print [Lit ''Using existing report''] w1)"
    and "requests_of (trace (snd (create_report srv api_url site_id scan_id name file_format template w)))
           = requests_of (trace w) @ [Get (reports_url api_url)]"
proof -
  show run: "create_report srv api_url site_id scan_id name file_format template w
           = (Inr report_id, py_print [Lit ''Using existing report''] w1)"
    using assms by (simp add: create_report_def)
  show "requests_of (trace (snd (create_report srv api_url site_id scan_id name file_format template w)))
           = requests_of (trace w) @ [Get (reports_url api_url)]"
    using get_existing_report_requests[of srv api_url site_id w] assms(1) by (simp add: run)
qed

text \<open>
  Claim C1 (idempotent reconciliation). Against a service that numbers the report
  configurations it creates from 0, the first \<^verbatim>\<open>create_report\<close> for site 7 creates one and
  returns its id, 0. The service now lists that configuration, and the lookup for site 7
  finds it. The second \<^verbatim>\<open>create_report\<close> for the same site nevertheless sends a second
  creation request and returns another id, 1: the id found is tested with \<^verbatim>\<open>if report_id:\<close>,
  and 0 is false there.
\<close>

theorem report_reconciliation_repeats_creation:
  "fst (create_report counting_service ''u'' (PInt 7) (PInt 41) ''Office'' ''pdf'' ''audit'' fresh_world)
     = Inr (PInt 0)
   \<and> fst (get_existing_report counting_service ''u'' (PInt 7)
        (snd (create_report counting_service ''u'' (PInt 7) (PInt 41) ''Office'' ''pdf'' ''audit'' fresh_world)))
     = Inr (PInt 0)
   \<and> fst (create_report counting_service ''u'' (PInt 7) (PInt 41) ''Office'' ''pdf'' ''audit''
        (snd (create_report counting_service ''u'' (PInt 7) (PInt 41) ''Office'' ''pdf'' ''audit'' fresh_world)))
     = Inr (PInt 1)
   \<and> requests_of (trace (snd (create_report counting_service ''u'' (PInt 7) (PInt 41) ''Office'' ''pdf'' ''audit''
        (snd (create_report counting_service ''u'' (PInt 7) (PInt 41) ''Office'' ''pdf'' ''audit'' fresh_world)))))
     = [Get (reports_url ''u''),
        Post (reports_url ''u'') (Some (report_data (PInt 7) (PInt 41) ''Office'' ''pdf'' ''audit'')),
        Get (reports_url ''u''),
        Post (reports_url ''u'') (Some (report_data (PInt 7) (PInt 41) ''Office'' ''pdf'' ''audit''))]"
  by (simp add: create_report_def get_existing_report_def post_report_def session_get_def
      session_post_def answer_def counting_service_def report_entry_def ok_status_def
      fresh_world_def reports_url_def report_data_def)

text \<open>The lookup returns the id of the first listed configuration whose scope holds the
  site id, whatever is listed after it.\<close>

lemma find_report_first:
  "list_all (report_not_scoped site_id) pre \<Longrightarrow> report_scoped site_id report
    \<Longrightarrow> find_report site_id (pre @ report # post) = Inr (report_id_of report)"
proof (induction pre)
  case Nil
  then show ?case
    by (cases report) (auto simp: report_id_of_def split: option.splits pyval.splits)
next
  case (Cons r pre)
  then show ?case by (cases r) (auto split: option.splits pyval.splits)
qed

lemma get_existing_report_first:
  assumes "lists_resources (answer srv w (Get (reports_url api_url))) (pre @ report # post)"
    and "list_all (report_not_scoped site_id) pre" and "report_scoped site_id report"
  shows "get_existing_report srv api_url site_id w
           = (Inr (report_id_of report), emit (Request (Get (reports_url api_url))) w)"
  using assms(1) find_report_first[OF assms(2,3), of post]
  by (auto simp: get_existing_report_def session_get_def lists_resources_def split: option.splits)

text \<open>
  Claim C9 (a falsy id is not reused). Let the report listing be an accepted JSON object,
  and let the first of its configurations that is scoped to the site have an id that is
  false in \<^verbatim>\<open>if report_id:\<close> (0, the empty string, or no id at all), whatever configurations
  follow it. Then the lookup returns that id, and \<^verbatim>\<open>create_report\<close> goes on exactly as it
  does when no report exists: it sends the creation request right after the listing
  request and returns what the creation part returns. The existing configuration is not
  reused.
\<close>

theorem falsy_report_id_not_reused:
  assumes "lists_resources (answer srv w (Get (reports_url api_url))) (pre @ report # post)"
    and "list_all (report_not_scoped site_id) pre" and "report_scoped site_id report"
    and "\<not> py_truthy (report_id_of report)"
  shows "fst (get_existing_report srv api_url site_id w) = Inr (report_id_of report)
       \<and> create_report srv api_url site_id scan_id name file_format template w
           = post_report srv api_url site_id scan_id name file_format template
               (emit (Request (Get (reports_url api_url))) w)
       \<and> requests_of (trace (snd (create_report srv api_url site_id scan_id name file_format template w)))
           = requests_of (trace w) @
             [Get (reports_url api_url),
              Post (reports_url api_url) (Some (report_data site_id scan_id name file_format template))]"
proof -
  note look = get_existing_report_first[OF assms(1,2,3)]
  have run: "create_report srv api_url site_id scan_id name file_format template w
           = post_report srv api_url site_id scan_id name file_format template
               (emit (Request (Get (reports_url api_url))) w)"
    using assms(4) by (simp add: create_report_def look)
  show ?thesis
    using post_report_requests[of srv api_url site_id scan_id name file_format template
        "emit (Request (Get (reports_url api_url))) w"]
    by (simp add: look run)
qed

theorem falsy_report_id_not_reused_witness:
  "fst (get_existing_report two_scoped_service ''u'' (PInt 7) fresh_world) = Inr (PInt 0)
   \<and> fst (create_report two_scoped_service ''u'' (PInt 7) (PInt 41) ''Office'' ''pdf'' ''audit'' fresh_world)
       = Inr (PInt 5)
   \<and> requests_of (trace (snd (create_report two_scoped_service ''u'' (PInt 7) (PInt 41) ''Office'' ''pdf''
                                 ''audit'' fresh_world)))
       = [Get (reports_url ''u''),
          Post (reports_url ''u'') (Some (report_data (PInt 7) (PInt 41) ''Office'' ''pdf'' ''audit''))]"
proof -
  let ?other = "PDict [(''id'', PInt 3), (''scope'', PDict [(''sites'', PList [PInt 9])])]"
  let ?zero = "PDict [(''id'', PInt 0), (''scope'', PDict [(''sites'', PList [PInt 7])])]"
  let ?four = "PDict [(''id'', PInt 4), (''scope'', PDict [(''sites'', PList [PInt 7])])]"
  have listing: "lists_resources (answer two_scoped_service fresh_world (Get (reports_url ''u'')))
                   ([?other] @ ?zero # [?four])"
    by (simp add: lists_resources_def answer_def two_scoped_service_def two_scoped_listing_def
        ok_status_def reports_url_def fresh_world_def)
  have before: "list_all (report_not_scoped (PInt 7)) [?other]" by simp
  have scoped: "report_scoped (PInt 7) ?zero" by simp
  have zero: "report_id_of ?zero = PInt 0" by (simp add: report_id_of_def)
  have falsy: "\<not> py_truthy (report_id_of ?zero)" by (simp add: zero)
  have post: "fst (post_report two_scoped_service ''u'' (PInt 7) (PInt 41) ''Office'' ''pdf'' ''audit''
                (emit (Request (Get (reports_url ''u''))) fresh_world)) = Inr (PInt 5)"
    by (simp add: post_report_def session_post_def answer_def two_scoped_service_def created_5_def
        ok_status_def fresh_world_def)
  have none: "requests_of (trace fresh_world) = []"
    by (simp add: fresh_world_def)
  note main = falsy_report_id_not_reused[OF listing before scoped falsy,
      of "PInt 41" "''Office''" "''pdf''" "''audit''"]
  have a: "fst (get_existing_report two_scoped_service ''u'' (PInt 7) fresh_world) = Inr (PInt 0)"
    using main[THEN conjunct1] by (simp only: zero)
  have b: "fst (create_report two_scoped_service ''u'' (PInt 7) (PInt 41) ''Office'' ''pdf'' ''audit''
                  fresh_world) = Inr (PInt 5)"
    by (simp only: main[THEN conjunct2, THEN conjunct1] post)
  show ?thesis
    using a b main[THEN conjunct2, THEN conjunct2] by (simp only: none append_Nil simp_thms)
qed

section \<open>Download\<close>

lemmas file_system_defs =
  os_path_exists_def is_directory_def dir_known_def path_abs_def path_parts_def raw_components_def
  has_file_ancestor_def strip_sep_def parent_parts_def names_directory_def os_makedirs_def
  write_file_def os_path_join_def

lemma resolve_directory_world:
  assumes "resolve_directory directory_name address save_filename w = Inr (save_path, w1)"
  shows "trace w1 = trace w @ (if os_path_exists w (tested_path directory_name address) then []
                                else [MakeDirs (target_directory directory_name address)])"
    and "dirs w1 = (if os_path_exists w (tested_path directory_name address) then dirs w
                    else insert (target_directory directory_name address) (dirs w))"
    and "files w1 = files w"
    and "save_path = os_path_join (target_directory directory_name address) save_filename"
  using assms
  by (auto simp: resolve_directory_def tested_path_def target_directory_def os_makedirs_def
      split: option.splits if_splits sum.splits)

lemma fresh_reports_step:
  "resolve_directory None None ''report.pdf'' fresh_world
     = Inr (''reports/report.pdf'', emit (MakeDirs ''reports'') (fresh_world\<lparr>dirs := {''reports''}\<rparr>))"
  by (simp add: resolve_directory_def file_system_defs fresh_world_def)

text \<open>
  Claim C5 (download success criterion). Once the directory step has gone through and
  the response \<open>r\<close> to the download request is there, \<^verbatim>\<open>download_report\<close> returns the save
  path exactly when the status is 200 (the file system taking the write it then attempts);
  with any other status, 201 and 202 included, it returns \<^verbatim>\<open>None\<close> and its last act is to
  print the failure line with that status.
\<close>

theorem download_success_criterion:
  assumes "resolve_directory directory_name address save_filename w = Inr (save_path, w1)"
    and "r = answer srv w1 (Get (download_url api_url report_id instance))"
    and "status_code r = 200 \<Longrightarrow>
           write_file save_path (content r)
             (emit (Request (Get (download_url api_url report_id instance))) w1) = Inr w3"
  shows "(fst (download_report srv api_url report_id instance directory_name address save_filename w)
            = Inr (PStr save_path)) = (status_code r = 200)
       \<and> (status_code r \<noteq> 200 \<longrightarrow>
            download_report srv api_url report_id instance directory_name address save_filename w
              = (Inr PNone, py_print (download_failed (status_code r))
                   (emit (Request (Get (download_url api_url report_id instance))) w1)))"
proof (cases "status_code r = 200")
  case True
  then show ?thesis
    using assms(1,2) assms(3)[OF True] by (simp add: download_report_def session_get_def)
next
  case False
  then show ?thesis
    using assms(1,2) by (simp add: download_report_def session_get_def)
qed

theorem download_success_criterion_witness:
  "fst (download_report (always pdf_200) ''u'' (PInt 3) ''latest'' None None ''report.pdf'' fresh_world)
       = Inr (PStr ''reports/report.pdf'')
   \<and> fst (download_report (always (refused 201)) ''u'' (PInt 3) ''latest'' None None ''report.pdf'' fresh_world)
       \<noteq> Inr (PStr ''reports/report.pdf'')
   \<and> fst (download_report (always (refused 201)) ''u'' (PInt 3) ''latest'' None None ''report.pdf'' fresh_world)
       = Inr PNone"
proof -
  let ?w1 = "emit (MakeDirs ''reports'') (fresh_world\<lparr>dirs := {''reports''}\<rparr>)"
  let ?q = "Get (download_url ''u'' (PInt 3) ''latest'')"
  let ?w2 = "emit (Request ?q) ?w1"
  have r: "refused 201 = answer (always (refused 201)) ?w1 ?q"
    and s: "pdf_200 = answer (always pdf_200) ?w1 ?q"
    by (simp_all add: answer_def)
  have wr: "write_file ''reports/report.pdf'' (content pdf_200) ?w2
      = Inr (emit (WriteFile ''reports/report.pdf'' (content pdf_200))
              (?w2\<lparr>files := (files ?w2)(''reports/report.pdf'' \<mapsto> content pdf_200)\<rparr>))"
    by (simp add: file_system_defs fresh_world_def)
  have no: "status_code (refused 201) = 200 \<Longrightarrow>
      write_file ''reports/report.pdf'' (content (refused 201)) ?w2 = Inr ?w2"
    by (simp add: refused_def)
  show ?thesis
    using download_success_criterion[OF fresh_reports_step s wr]
      download_success_criterion[OF fresh_reports_step r no]
    by (simp add: refused_def pdf_200_def)
qed

text \<open>
  Claim C6 (download path composition), as stated: with both \<^verbatim>\<open>directory_name\<close> and \<^verbatim>\<open>address\<close>
  given the file is saved at \<^verbatim>\<open>"{directory_name}_{address}/{save_filename}"\<close>. The path is built
  by \<^verbatim>\<open>os.path.join\<close>, which drops the directory when the file name is absolute: with
  \<^verbatim>\<open>save_filename="/tmp/r.pdf"\<close> the report is written to \<^verbatim>\<open>/tmp/r.pdf\<close> and nothing is written
  to \<^verbatim>\<open>2024-01-01_10.0.0.5//tmp/r.pdf\<close>. It also adds no separator after a directory that ends
  in one: with \<^verbatim>\<open>address="10.0.0.5/"\<close> the save path is \<^verbatim>\<open>2024-01-01_10.0.0.5/r.pdf\<close>, with one
  \<^verbatim>\<open>/\<close>.
\<close>

theorem download_path_absolute_filename:
  "fst (download_report (always pdf_200) ''u'' (PInt 3) ''latest'' (Some ''2024-01-01'') (Some ''10.0.0.5'')
          ''/tmp/r.pdf'' tmp_world)
     = Inr (PStr ''/tmp/r.pdf'')
   \<and> files (snd (download_report (always pdf_200) ''u'' (PInt 3) ''latest'' (Some ''2024-01-01'')
                   (Some ''10.0.0.5'') ''/tmp/r.pdf'' tmp_world))
        ''/tmp/r.pdf'' = Some ''%PDF''
   \<and> files (snd (download_report (always pdf_200) ''u'' (PInt 3) ''latest'' (Some ''2024-01-01'')
                   (Some ''10.0.0.5'') ''/tmp/r.pdf'' tmp_world))
        ''2024-01-01_10.0.0.5//tmp/r.pdf'' = None
   \<and> map_sum id fst (resolve_directory (Some ''2024-01-01'') (Some ''10.0.0.5/'') ''r.pdf'' fresh_world)
     = Inr ''2024-01-01_10.0.0.5/r.pdf''"
  by (simp add: download_report_def resolve_directory_def file_system_defs tmp_world_def
      fresh_world_def session_get_def answer_def pdf_200_def)

text \<open>
  Claim C6, amended. Whenever \<^verbatim>\<open>download_report\<close> returns a path \<open>p\<close>, the bytes of the response
  are in the file \<open>p\<close>, and for a \<^verbatim>\<open>save_filename\<close> that does not begin with \<^verbatim>\<open>/\<close>: with both
  \<^verbatim>\<open>directory_name\<close> and \<^verbatim>\<open>address\<close> given, and \<^verbatim>\<open>address\<close> not ending in \<^verbatim>\<open>/\<close>, \<open>p\<close> is
  \<^verbatim>\<open>"{directory_name}_{address}/{save_filename}"\<close>; with both omitted and the default file name,
  \<open>p\<close> is \<^verbatim>\<open>"reports/report.pdf"\<close>.
\<close>

theorem download_path_composition:
  assumes "download_report srv api_url report_id instance directory_name address save_filename w
             = (Inr (PStr p), w')"
    and "\<not> (save_filename \<noteq> [] \<and> hd save_filename = CHR ''/'')"
  shows "(directory_name = Some d \<and> address = Some a \<and> \<not> (a \<noteq> [] \<and> last a = CHR ''/'')
            \<longrightarrow> p = d @ ''_'' @ a @ ''/'' @ save_filename)
       \<and> (directory_name = None \<and> address = None \<and> save_filename = ''report.pdf''
            \<longrightarrow> p = ''reports/report.pdf'')
       \<and> files w' p = Some (content (answer srv w (Get (download_url api_url report_id instance))))"
proof -
  obtain w1 where step: "resolve_directory directory_name address save_filename w = Inr (p, w1)"
    using assms(1)
    by (auto simp: download_report_def session_get_def split: sum.splits if_splits prod.splits)
  have same: "answer srv w1 q = answer srv w q" for q
    using resolve_directory_world(1)[OF step] by (auto intro: answer_same_requests)
  have path: "p = os_path_join (target_directory directory_name address) save_filename"
    by (rule resolve_directory_world(4)[OF step])
  have saved: "files w' p = Some (content (answer srv w (Get (download_url api_url report_id instance))))"
    using assms(1) step same
    by (auto simp: download_report_def session_get_def write_file_def split: sum.splits if_splits)
  show ?thesis
    using path assms(2) saved
    by (auto simp: os_path_join_def target_directory_def)
qed

theorem download_path_composition_witness:
  "download_report (always pdf_200) ''u'' (PInt 3) ''latest'' (Some ''2024-01-01'') (Some ''10.0.0.5'')
       ''r.pdf'' fresh_world
     = (Inr (PStr ''2024-01-01_10.0.0.5/r.pdf''),
        snd (download_report (always pdf_200) ''u'' (PInt 3) ''latest'' (Some ''2024-01-01'')
               (Some ''10.0.0.5'') ''r.pdf'' fresh_world))
   \<and> files (snd (download_report (always pdf_200) ''u'' (PInt 3) ''latest'' (Some ''2024-01-01'')
                   (Some ''10.0.0.5'') ''r.pdf'' fresh_world))
        ''2024-01-01_10.0.0.5/r.pdf'' = Some ''%PDF''"
proof -
  have run: "download_report (always pdf_200) ''u'' (PInt 3) ''latest'' (Some ''2024-01-01'')
       (Some ''10.0.0.5'') ''r.pdf'' fresh_world
     = (Inr (PStr ''2024-01-01_10.0.0.5/r.pdf''),
        snd (download_report (always pdf_200) ''u'' (PInt 3) ''latest'' (Some ''2024-01-01'')
               (Some ''10.0.0.5'') ''r.pdf'' fresh_world))"
    by (simp add: download_report_def resolve_directory_def file_system_defs fresh_world_def
        session_get_def answer_def pdf_200_def)
  have rel: "\<not> (''r.pdf'' \<noteq> [] \<and> hd ''r.pdf'' = CHR ''/'')" by simp
  show ?thesis
    using download_path_composition[OF run rel, of "''2024-01-01''" "''10.0.0.5''"] run
    by (simp add: answer_def pdf_200_def)
qed

text \<open>
  Claim C10 (the directory side effect precedes the download). The directory step of
  \<^verbatim>\<open>download_report\<close> is over before the request is sent. When the response status is not
  200 the call returns \<^verbatim>\<open>None\<close>, and the trace it leaves is: the directory made (when the tested
  path did not exist), then the request, then the failure line. The directory made is still
  there at the end: a failed download has changed the local file system.
\<close>

theorem directory_effect_precedes_request:
  assumes "resolve_directory directory_name address save_filename w = Inr (save_path, w1)"
    and "status_code (answer srv w (Get (download_url api_url report_id instance))) \<noteq> 200"
    and "download_report srv api_url report_id instance directory_name address save_filename w = (res, w')"
  shows "res = Inr PNone
       \<and> trace w' = trace w
           @ (if os_path_exists w (tested_path directory_name address) then []
              else [MakeDirs (target_directory directory_name address)])
           @ [Request (Get (download_url api_url report_id instance)),
              Print (download_failed
                (status_code (answer srv w (Get (download_url api_url report_id instance)))))]
       \<and> dirs w' = (if os_path_exists w (tested_path directory_name address) then dirs w
                    else insert (target_directory directory_name address) (dirs w))"
proof -
  have same: "answer srv w1 q = answer srv w q" for q
    using resolve_directory_world(1)[OF assms(1)] by (auto intro: answer_same_requests)
  show ?thesis
    using assms(2,3) resolve_directory_world[OF assms(1)]
    by (auto simp: download_report_def session_get_def assms(1) same)
qed

theorem directory_effect_precedes_request_witness:
  "status_code (answer (always (refused 500)) fresh_world (Get (download_url ''u'' (PInt 3) ''latest''))) \<noteq> 200
   \<and> fst (download_report (always (refused 500)) ''u'' (PInt 3) ''latest'' None None ''report.pdf'' fresh_world)
       = Inr PNone
   \<and> trace (snd (download_report (always (refused 500)) ''u'' (PInt 3) ''latest'' None None ''report.pdf''
                   fresh_world))
       = [MakeDirs ''reports'', Request (Get (download_url ''u'' (PInt 3) ''latest'')),
          Print (download_failed 500)]
   \<and> dirs (snd (download_report (always (refused 500)) ''u'' (PInt 3) ''latest'' None None ''report.pdf''
                  fresh_world))
       = {''reports''}"
proof -
  have st: "status_code (answer (always (refused 500)) fresh_world
              (Get (download_url ''u'' (PInt 3) ''latest''))) \<noteq> 200"
    by (simp add: answer_def refused_def)
  have ne: "\<not> os_path_exists fresh_world (tested_path None None)"
    by (simp add: file_system_defs fresh_world_def tested_path_def)
  show ?thesis
    using directory_effect_precedes_request[OF fresh_reports_step st surjective_pairing] st ne
    by (simp add: target_directory_def answer_def refused_def fresh_world_def)
qed

text \<open>With an address that holds a separator the directory made is nested, and its parent
  is there after the failed download as well.\<close>

lemma failed_download_leaves_nested_directory:
  "fst (download_report (always (refused 500)) ''u'' (PInt 3) ''latest'' (Some ''2024-01-01'')
          (Some ''10.0.0.0/24'') ''r.pdf'' fresh_world) = Inr PNone
   \<and> is_directory (snd (download_report (always (refused 500)) ''u'' (PInt 3) ''latest''
          (Some ''2024-01-01'') (Some ''10.0.0.0/24'') ''r.pdf'' fresh_world)) ''2024-01-01_10.0.0.0/24''
   \<and> is_directory (snd (download_report (always (refused 500)) ''u'' (PInt 3) ''latest''
          (Some ''2024-01-01'') (Some ''10.0.0.0/24'') ''r.pdf'' fresh_world)) ''2024-01-01_10.0.0.0''"
  by (simp add: download_report_def resolve_directory_def file_system_defs fresh_world_def
      session_get_def answer_def refused_def)

section \<open>The last scan\<close>

lemma find_last_link_found:
  "list_all not_last_link pre \<Longrightarrow> map_of link ''rel'' = Some (PStr ''last'')
    \<Longrightarrow> map_of link ''href'' = Some href
    \<Longrightarrow> find_last_link (pre @ PDict link # post) = Inr href"
proof (induction pre)
  case Nil
  then show ?case by simp
next
  case (Cons l pre)
  then show ?case by (cases l) (auto split: option.splits)
qed

lemma find_last_link_none: "list_all not_last_link ls \<Longrightarrow> find_last_link ls = Inr PNone"
proof (induction ls)
  case Nil
  then show ?case by simp
next
  case (Cons l ls)
  then show ?case by (cases l) (auto split: option.splits)
qed

lemma get_last_scan_id_page:
  assumes "lists_links (answer srv w (Get (scans_url api_url))) ls"
    and "find_last_link ls = Inr target"
    and "page_url = (if target \<noteq> PNone then [Fmt target] else scans_url api_url)"
    and "lists_resources (answer srv (emit (Request (Get (scans_url api_url))) w) (Get page_url)) rs"
    and "rs \<noteq> []"
  shows "get_last_scan_id srv api_url w
           = (py_get (last rs) ''id'' PNone,
              emit (Request (Get page_url)) (emit (Request (Get (scans_url api_url))) w))"
  using assms
  by (auto simp: get_last_scan_id_def session_get_def lists_links_def lists_resources_def Let_def
      split: option.splits)

text \<open>
  Claim C3 (pagination traversal). Let the first page of the scan listing be an accepted
  JSON object with the list \<open>links\<close>, and let the page then requested be an accepted JSON
  object whose \<^verbatim>\<open>resources\<close> is a non-empty list ending in an object. If \<open>links\<close> has a link
  with \<^verbatim>\<open>rel\<close> \<^verbatim>\<open>"last"\<close> and an address \<^verbatim>\<open>href\<close>, the links before it being objects with another
  \<^verbatim>\<open>rel\<close>, then \<^verbatim>\<open>get_last_scan_id\<close> requests that address and returns the \<^verbatim>\<open>id\<close> of the last
  resource of the page it gets there. If no link has \<^verbatim>\<open>rel\<close> \<^verbatim>\<open>"last"\<close>, it requests the listing a
  second time and returns the \<^verbatim>\<open>id\<close> of the last resource of that second answer.
\<close>

theorem last_scan_id_follows_last_link:
  assumes "lists_links (answer srv w (Get (scans_url api_url))) links"
    and "lists_resources (answer srv (emit (Request (Get (scans_url api_url))) w) (Get page_url)) rs"
    and "rs \<noteq> []" and "last rs = PDict item"
  shows "(links = pre @ PDict link # post \<and> list_all not_last_link pre
            \<and> map_of link ''rel'' = Some (PStr ''last'') \<and> map_of link ''href'' = Some href
            \<and> href \<noteq> PNone \<and> page_url = [Fmt href]
          \<longrightarrow> fst (get_last_scan_id srv api_url w)
                = Inr (case map_of item ''id'' of None \<Rightarrow> PNone | Some v \<Rightarrow> v)
              \<and> requests_of (trace (snd (get_last_scan_id srv api_url w)))
                = requests_of (trace w) @ [Get (scans_url api_url), Get [Fmt href]])
       \<and> (list_all not_last_link links \<and> page_url = scans_url api_url
          \<longrightarrow> fst (get_last_scan_id srv api_url w)
                = Inr (case map_of item ''id'' of None \<Rightarrow> PNone | Some v \<Rightarrow> v)
              \<and> requests_of (trace (snd (get_last_scan_id srv api_url w)))
                = requests_of (trace w) @ [Get (scans_url api_url), Get (scans_url api_url)])"
proof (intro conjI impI)
  assume a: "links = pre @ PDict link # post \<and> list_all not_last_link pre
            \<and> map_of link ''rel'' = Some (PStr ''last'') \<and> map_of link ''href'' = Some href
            \<and> href \<noteq> PNone \<and> page_url = [Fmt href]"
  then have f: "find_last_link links = Inr href"
    by (simp add: find_last_link_found)
  have p: "page_url = (if href \<noteq> PNone then [Fmt href] else scans_url api_url)"
    using a by simp
  note run = get_last_scan_id_page[OF assms(1) f p assms(2,3)]
  show "fst (get_last_scan_id srv api_url w)
          = Inr (case map_of item ''id'' of None \<Rightarrow> PNone | Some v \<Rightarrow> v)"
    by (simp add: run assms(4))
  show "requests_of (trace (snd (get_last_scan_id srv api_url w)))
          = requests_of (trace w) @ [Get (scans_url api_url), Get [Fmt href]]"
    using a by (simp add: run)
next
  assume a: "list_all not_last_link links \<and> page_url = scans_url api_url"
  then have f: "find_last_link links = Inr PNone"
    by (simp add: find_last_link_none)
  have p: "page_url = (if PNone \<noteq> PNone then [Fmt PNone] else scans_url api_url)"
    using a by simp
  note run = get_last_scan_id_page[OF assms(1) f p assms(2,3)]
  show "fst (get_last_scan_id srv api_url w)
          = Inr (case map_of item ''id'' of None \<Rightarrow> PNone | Some v \<Rightarrow> v)"
    by (simp add: run assms(4))
  show "requests_of (trace (snd (get_last_scan_id srv api_url w)))
          = requests_of (trace w) @ [Get (scans_url api_url), Get (scans_url api_url)]"
    using a by (simp add: run)
qed

theorem last_scan_id_follows_last_link_witness:
  "fst (get_last_scan_id paged_service ''u'' fresh_world) = Inr (PInt 13)
   \<and> requests_of (trace (snd (get_last_scan_id paged_service ''u'' fresh_world)))
       = [Get (scans_url ''u''), Get [Fmt (PStr ''u/scans?page=1'')]]
   \<and> fst (get_last_scan_id (always scan_page_2) ''u'' fresh_world) = Inr (PInt 13)
   \<and> requests_of (trace (snd (get_last_scan_id (always scan_page_2) ''u'' fresh_world)))
       = [Get (scans_url ''u''), Get (scans_url ''u'')]"
proof -
  let ?self0 = "PDict [(''href'', PStr ''u/scans?page=0''), (''rel'', PStr ''self'')]"
  let ?self1 = "PDict [(''href'', PStr ''u/scans?page=1''), (''rel'', PStr ''self'')]"
  let ?last = "[(''href'', PStr ''u/scans?page=1''), (''rel'', PStr ''last'')]"
  let ?rs = "[PDict [(''id'', PInt 11)], PDict [(''id'', PInt 12)], PDict [(''id'', PInt 13)]]"
  let ?w1 = "emit (Request (Get (scans_url ''u''))) fresh_world"
  have none: "requests_of (trace fresh_world) = []"
    by (simp add: fresh_world_def)
  have first: "lists_links (answer paged_service fresh_world (Get (scans_url ''u''))) [?self0, PDict ?last]"
    by (simp add: lists_links_def answer_def paged_service_def scan_page_1_def ok_status_def
        scans_url_def fresh_world_def)
  have second: "lists_resources (answer paged_service ?w1 (Get [Fmt (PStr ''u/scans?page=1'')])) ?rs"
    by (simp add: lists_resources_def answer_def paged_service_def scan_page_2_def ok_status_def)
  have linked: "[?self0, PDict ?last] = [?self0] @ PDict ?last # [] \<and> list_all not_last_link [?self0]
      \<and> map_of ?last ''rel'' = Some (PStr ''last'')
      \<and> map_of ?last ''href'' = Some (PStr ''u/scans?page=1'')
      \<and> PStr ''u/scans?page=1'' \<noteq> PNone
      \<and> [Fmt (PStr ''u/scans?page=1'')] = [Fmt (PStr ''u/scans?page=1'')]"
    by simp
  have first': "lists_links (answer (always scan_page_2) fresh_world (Get (scans_url ''u''))) [?self1]"
    by (simp add: lists_links_def answer_def scan_page_2_def ok_status_def)
  have second': "lists_resources (answer (always scan_page_2) ?w1 (Get (scans_url ''u''))) ?rs"
    by (simp add: lists_resources_def answer_def scan_page_2_def ok_status_def)
  have unlinked: "list_all not_last_link [?self1] \<and> scans_url ''u'' = scans_url ''u''"
    by simp
  have ne: "?rs \<noteq> []" and item: "last ?rs = PDict [(''id'', PInt 13)]"
    by simp_all
  note with_link = last_scan_id_follows_last_link[OF first second ne item,
      THEN conjunct1, rule_format, OF linked]
  note without_link = last_scan_id_follows_last_link[OF first' second' ne item,
      THEN conjunct2, rule_format, OF unlinked]
  show ?thesis
    using with_link without_link by (simp add: none)
qed

section \<open>Waiting\<close>

lemma time_sleep_simps [simp]:
  "trace (time_sleep n w) = trace w @ [Sleep n]" "dirs (time_sleep n w) = dirs w"
  "files (time_sleep n w) = files w"
  by (simp_all add: time_sleep_def)

subsection \<open>The scan loop\<close>

lemma scan_poll_0: "scan_poll srv api_url scan_id w 0 = answer srv w (Get (scan_url api_url scan_id))"
  by (simp add: scan_poll_def answer_def)

lemma scan_poll_shift:
  "requests_of (trace w1) = requests_of (trace w) @ [Get (scan_url api_url scan_id)]
    \<Longrightarrow> scan_poll srv api_url scan_id w1 i = scan_poll srv api_url scan_id w (Suc i)"
  by (simp add: scan_poll_def)

lemma scan_absorbed_not_terminal: "scan_absorbed r \<Longrightarrow> \<not> scan_terminal r"
  by (auto simp: scan_absorbed_def scan_terminal_def split: option.splits pyval.splits if_splits)

text \<open>One turn of the loop on an absorbed poll: the wait goes on from a world with one more
  request.\<close>

lemma scan_step_absorbed:
  assumes "scan_absorbed (answer srv w (Get (scan_url api_url scan_id)))"
  shows "\<exists>w1. wait_for_scan_completion srv api_url scan_id w
                 = wait_for_scan_completion srv api_url scan_id w1
            \<and> requests_of (trace w1) = requests_of (trace w) @ [Get (scan_url api_url scan_id)]"
proof -
  let ?r = "answer srv w (Get (scan_url api_url scan_id))"
  let ?w1 = "emit (Request (Get (scan_url api_url scan_id))) w"
  consider (refused) "\<not> ok_status (status_code ?r)"
    | (garbled) "ok_status (status_code ?r)" "json ?r = None"
    | (pending) kvs where "ok_status (status_code ?r)" "json ?r = Some (PDict kvs)"
        "map_of kvs ''status'' \<noteq> Some (PStr ''finished'')"
        "map_of kvs ''status'' \<noteq> Some (PStr ''stopped'')"
    using assms by (auto simp: scan_absorbed_def split: option.splits pyval.splits if_splits)
  then show ?thesis
  proof cases
    case refused
    then have "wait_for_scan_completion srv api_url scan_id w
        = wait_for_scan_completion srv api_url scan_id
            (time_sleep 150 (py_print [Fmt (PInt (status_code ?r))] ?w1))"
      by (subst wait_for_scan_completion.simps) (simp add: session_get_def)
    then show ?thesis by (intro exI conjI, assumption) simp
  next
    case garbled
    then have "wait_for_scan_completion srv api_url scan_id w
        = wait_for_scan_completion srv api_url scan_id (time_sleep 150 (py_print parse_failed ?w1))"
      by (subst wait_for_scan_completion.simps) (simp add: session_get_def)
    then show ?thesis by (intro exI conjI, assumption) simp
  next
    case pending
    let ?status = "case map_of kvs ''status'' of None \<Rightarrow> PNone | Some v \<Rightarrow> v"
    have "wait_for_scan_completion srv api_url scan_id w
        = wait_for_scan_completion srv api_url scan_id
            (time_sleep 150 (py_print [Fmt (PInt (status_code ?r)), Lit '' : '', Fmt ?status] ?w1))"
      using pending
      by (subst wait_for_scan_completion.simps) (auto simp: session_get_def split: option.splits)
    then show ?thesis by (intro exI conjI, assumption) simp
  qed
qed

text \<open>One turn on a terminal poll: the wait returns \<^verbatim>\<open>None\<close>, its last act being to print the
  status.\<close>

lemma scan_step_terminal:
  assumes "scan_terminal (answer srv w (Get (scan_url api_url scan_id)))"
  shows "\<exists>w'. wait_for_scan_completion srv api_url scan_id w = Some (Inr PNone, w')
            \<and> requests_of (trace w') = requests_of (trace w) @ [Get (scan_url api_url scan_id)]
            \<and> last (trace w') = Print [Lit ''Scan '',
                 Fmt (status_of (answer srv w (Get (scan_url api_url scan_id)))), Lit '' successfully'']"
  using assms
  by (subst wait_for_scan_completion.simps)
     (auto simp: scan_terminal_def status_of_def session_get_def split: option.splits pyval.splits)

lemma scan_absorb_prefix:
  "\<forall>i<n. scan_absorbed (scan_poll srv api_url scan_id w i)
    \<Longrightarrow> \<exists>wn. wait_for_scan_completion srv api_url scan_id w
                = wait_for_scan_completion srv api_url scan_id wn
           \<and> requests_of (trace wn) = requests_of (trace w) @ replicate n (Get (scan_url api_url scan_id))
           \<and> (\<forall>i. scan_poll srv api_url scan_id wn i = scan_poll srv api_url scan_id w (n + i))"
proof (induction n arbitrary: w)
  case 0
  then show ?case by auto
next
  case (Suc n)
  have "scan_absorbed (answer srv w (Get (scan_url api_url scan_id)))"
    using Suc.prems scan_poll_0[of srv api_url scan_id w] by auto
  from scan_step_absorbed[OF this] obtain w1 where
    w1: "wait_for_scan_completion srv api_url scan_id w = wait_for_scan_completion srv api_url scan_id w1"
      "requests_of (trace w1) = requests_of (trace w) @ [Get (scan_url api_url scan_id)]"
    by blast
  have shift: "scan_poll srv api_url scan_id w1 i = scan_poll srv api_url scan_id w (Suc i)" for i
    by (rule scan_poll_shift[OF w1(2)])
  have "\<forall>i<n. scan_absorbed (scan_poll srv api_url scan_id w1 i)"
    using Suc.prems by (simp add: shift)
  from Suc.IH[OF this] obtain wn where
    wn: "wait_for_scan_completion srv api_url scan_id w1 = wait_for_scan_completion srv api_url scan_id wn"
      "requests_of (trace wn) = requests_of (trace w1) @ replicate n (Get (scan_url api_url scan_id))"
      "\<forall>i. scan_poll srv api_url scan_id wn i = scan_poll srv api_url scan_id w1 (n + i)"
    by blast
  show ?case
    using w1 wn by (intro exI[of _ wn]) (simp add: shift replicate_append_same)
qed

lemma scan_wait_first_terminal:
  assumes "\<forall>i<k. scan_absorbed (scan_poll srv api_url scan_id w i)"
    and "scan_terminal (scan_poll srv api_url scan_id w k)"
  shows "\<exists>w'. wait_for_scan_completion srv api_url scan_id w = Some (Inr PNone, w')
           \<and> requests_of (trace w') = requests_of (trace w) @ replicate (Suc k) (Get (scan_url api_url scan_id))
           \<and> last (trace w') = Print [Lit ''Scan '', Fmt (status_of (scan_poll srv api_url scan_id w k)),
                                       Lit '' successfully'']"
proof -
  from scan_absorb_prefix[OF assms(1)] obtain wk where
    wk: "wait_for_scan_completion srv api_url scan_id w = wait_for_scan_completion srv api_url scan_id wk"
      "requests_of (trace wk) = requests_of (trace w) @ replicate k (Get (scan_url api_url scan_id))"
      "\<forall>i. scan_poll srv api_url scan_id wk i = scan_poll srv api_url scan_id w (k + i)"
    by blast
  have at_k: "answer srv wk (Get (scan_url api_url scan_id)) = scan_poll srv api_url scan_id w k"
    using wk(3)[rule_format, of 0] by (simp add: scan_poll_0)
  from scan_step_terminal[of srv wk api_url scan_id] assms(2) at_k obtain w' where
    "wait_for_scan_completion srv api_url scan_id wk = Some (Inr PNone, w')"
    "requests_of (trace w') = requests_of (trace wk) @ [Get (scan_url api_url scan_id)]"
    "last (trace w') = Print [Lit ''Scan '', Fmt (status_of (scan_poll srv api_url scan_id w k)),
                              Lit '' successfully'']"
    by auto
  then show ?thesis
    using wk(1,2) by (intro exI[of _ w']) (simp add: replicate_append_same)
qed

text \<open>What a result of the scan wait says about the polls: by induction on the unfolding of
  the loop.\<close>

lemma scan_wait_result:
  assumes "wait_for_scan_completion srv api_url scan_id w = Some y"
  shows "((\<forall>i. \<not> scan_terminal (scan_poll srv api_url scan_id w i)) \<longrightarrow> (\<forall>v w'. y \<noteq> (Inr v, w')))
       \<and> \<not> (\<forall>i. scan_absorbed (scan_poll srv api_url scan_id w i))"
  using assms
proof (induction rule: wait_for_scan_completion.raw_induct[rotated 1, consumes 1, case_names body])
  case (body wait srv api_url scan_id w y)
  note ih = body(1) and body = body(2)
  let ?r = "answer srv w (Get (scan_url api_url scan_id))"
  let ?w1 = "emit (Request (Get (scan_url api_url scan_id))) w"
  let ?P = "\<lambda>w y. ((\<forall>i. \<not> scan_terminal (scan_poll srv api_url scan_id w i)) \<longrightarrow> (\<forall>v w'. y \<noteq> (Inr v, w')))
       \<and> \<not> (\<forall>i. scan_absorbed (scan_poll srv api_url scan_id w i))"
  have r0: "scan_poll srv api_url scan_id w 0 = ?r"
    by (rule scan_poll_0)
  have later: "?P w y" if "wait srv api_url scan_id w1 = Some y"
    and "requests_of (trace w1) = requests_of (trace w) @ [Get (scan_url api_url scan_id)]" for w1
  proof -
    have "?P w1 y" using ih[OF that(1)] .
    moreover have "scan_poll srv api_url scan_id w1 i = scan_poll srv api_url scan_id w (Suc i)" for i
      by (rule scan_poll_shift[OF that(2)])
    ultimately show ?thesis by auto
  qed
  consider (refused) "\<not> ok_status (status_code ?r)"
    | (garbled) "ok_status (status_code ?r)" "json ?r = None"
    | (object) kvs where "ok_status (status_code ?r)" "json ?r = Some (PDict kvs)"
    | (other) j where "ok_status (status_code ?r)" "json ?r = Some j" "\<forall>kvs. j \<noteq> PDict kvs"
    by (cases "json ?r") auto
  then show ?case
  proof cases
    case refused
    with body have "wait srv api_url scan_id
        (time_sleep 150 (py_print [Fmt (PInt (status_code ?r))] ?w1)) = Some y"
      by (simp add: session_get_def)
    then show ?thesis by (rule later) simp
  next
    case garbled
    with body have "wait srv api_url scan_id (time_sleep 150 (py_print parse_failed ?w1)) = Some y"
      by (simp add: session_get_def)
    then show ?thesis by (rule later) simp
  next
    case object
    let ?status = "case map_of kvs ''status'' of None \<Rightarrow> PNone | Some v \<Rightarrow> v"
    show ?thesis
    proof (cases "?status = PStr ''finished'' \<or> ?status = PStr ''stopped''")
      case True
      then have "scan_terminal ?r" "\<not> scan_absorbed ?r"
        using object by (auto simp: scan_terminal_def scan_absorbed_def split: option.splits)
      then show ?thesis using r0 by metis
    next
      case False
      with body object have "wait srv api_url scan_id
          (time_sleep 150 (py_print [Fmt (PInt (status_code ?r)), Lit '' : '', Fmt ?status] ?w1)) = Some y"
        by (simp add: session_get_def)
      then show ?thesis by (rule later) simp
    qed
  next
    case other
    then have "py_get j ''status'' PNone = Inl AttributeError"
      by (cases j) auto
    with body other have "y = (Inl AttributeError, ?w1)"
      by (simp add: session_get_def)
    moreover have "\<not> scan_absorbed ?r"
      using other by (cases j) (auto simp: scan_absorbed_def)
    ultimately show ?thesis using r0 by (metis Inl_Inr_False prod.inject)
  qed
qed

subsection \<open>The report loop\<close>

lemma report_poll_0:
  "report_poll srv api_url report_id w 0 = answer srv w (Get (report_history_url api_url report_id))"
  by (simp add: report_poll_def answer_def)

lemma report_poll_shift:
  "requests_of (trace w1) = requests_of (trace w) @ [Get (report_history_url api_url report_id)]
    \<Longrightarrow> report_poll srv api_url report_id w1 i = report_poll srv api_url report_id w (Suc i)"
  by (simp add: report_poll_def)

lemma report_step_absorbed:
  assumes "report_absorbed (answer srv w (Get (report_history_url api_url report_id)))"
  shows "\<exists>w1. wait_for_report_completion srv api_url report_id w
                 = wait_for_report_completion srv api_url report_id w1
            \<and> requests_of (trace w1)
                 = requests_of (trace w) @ [Get (report_history_url api_url report_id)]"
proof -
  let ?q = "Get (report_history_url api_url report_id)"
  let ?r = "answer srv w ?q"
  let ?w1 = "emit (Request ?q) w"
  consider (refused) "\<not> ok_status (status_code ?r)"
    | (garbled) "ok_status (status_code ?r)" "json ?r = None"
    | (pending) kvs where "ok_status (status_code ?r)" "json ?r = Some (PDict kvs)"
        "map_of kvs ''status'' \<noteq> Some (PStr ''complete'')"
    using assms by (auto simp: report_absorbed_def split: option.splits pyval.splits if_splits)
  then show ?thesis
  proof cases
    case refused
    then have "wait_for_report_completion srv api_url report_id w
        = wait_for_report_completion srv api_url report_id (time_sleep 30 ?w1)"
      by (subst wait_for_report_completion.simps) (simp add: session_get_def)
    then show ?thesis by (intro exI conjI, assumption) simp
  next
    case garbled
    then have "wait_for_report_completion srv api_url report_id w
        = wait_for_report_completion srv api_url report_id (time_sleep 30 (py_print parse_failed ?w1))"
      by (subst wait_for_report_completion.simps) (simp add: session_get_def)
    then show ?thesis by (intro exI conjI, assumption) simp
  next
    case pending
    then have "wait_for_report_completion srv api_url report_id w
        = wait_for_report_completion srv api_url report_id (time_sleep 30 ?w1)"
      by (subst wait_for_report_completion.simps) (auto simp: session_get_def split: option.splits)
    then show ?thesis by (intro exI conjI, assumption) simp
  qed
qed

lemma report_step_complete:
  assumes "report_complete (answer srv w (Get (report_history_url api_url report_id)))"
  shows "\<exists>w'. wait_for_report_completion srv api_url report_id w
                 = Some (Inr (generated_of (answer srv w (Get (report_history_url api_url report_id)))), w')
            \<and> requests_of (trace w')
                 = requests_of (trace w) @ [Get (report_history_url api_url report_id)]"
  using assms
  by (subst wait_for_report_completion.simps)
     (auto simp: report_complete_def generated_of_def session_get_def split: option.splits pyval.splits)

lemma report_absorb_prefix:
  "\<forall>i<n. report_absorbed (report_poll srv api_url report_id w i)
    \<Longrightarrow> \<exists>wn. wait_for_report_completion srv api_url report_id w
                = wait_for_report_completion srv api_url report_id wn
           \<and> requests_of (trace wn)
                = requests_of (trace w) @ replicate n (Get (report_history_url api_url report_id))
           \<and> (\<forall>i. report_poll srv api_url report_id wn i = report_poll srv api_url report_id w (n + i))"
proof (induction n arbitrary: w)
  case 0
  then show ?case by auto
next
  case (Suc n)
  have "report_absorbed (answer srv w (Get (report_history_url api_url report_id)))"
    using Suc.prems report_poll_0[of srv api_url report_id w] by auto
  from report_step_absorbed[OF this] obtain w1 where
    w1: "wait_for_report_completion srv api_url report_id w
           = wait_for_report_completion srv api_url report_id w1"
      "requests_of (trace w1) = requests_of (trace w) @ [Get (report_history_url api_url report_id)]"
    by blast
  have shift: "report_poll srv api_url report_id w1 i = report_poll srv api_url report_id w (Suc i)" for i
    by (rule report_poll_shift[OF w1(2)])
  have "\<forall>i<n. report_absorbed (report_poll srv api_url report_id w1 i)"
    using Suc.prems by (simp add: shift)
  from Suc.IH[OF this] obtain wn where
    wn: "wait_for_report_completion srv api_url report_id w1
           = wait_for_report_completion srv api_url report_id wn"
      "requests_of (trace wn)
         = requests_of (trace w1) @ replicate n (Get (report_history_url api_url report_id))"
      "\<forall>i. report_poll srv api_url report_id wn i = report_poll srv api_url report_id w1 (n + i)"
    by blast
  show ?case
    using w1 wn by (intro exI[of _ wn]) (simp add: shift replicate_append_same)
qed

lemma report_wait_first_complete:
  assumes "\<forall>i<k. report_absorbed (report_poll srv api_url report_id w i)"
    and "report_complete (report_poll srv api_url report_id w k)"
  shows "\<exists>w'. wait_for_report_completion srv api_url report_id w
                 = Some (Inr (generated_of (report_poll srv api_url report_id w k)), w')
           \<and> requests_of (trace w')
                 = requests_of (trace w) @ replicate (Suc k) (Get (report_history_url api_url report_id))"
proof -
  from report_absorb_prefix[OF assms(1)] obtain wk where
    wk: "wait_for_report_completion srv api_url report_id w
           = wait_for_report_completion srv api_url report_id wk"
      "requests_of (trace wk)
         = requests_of (trace w) @ replicate k (Get (report_history_url api_url report_id))"
      "\<forall>i. report_poll srv api_url report_id wk i = report_poll srv api_url report_id w (k + i)"
    by blast
  have at_k: "answer srv wk (Get (report_history_url api_url report_id))
                = report_poll srv api_url report_id w k"
    using wk(3)[rule_format, of 0] by (simp add: report_poll_0)
  from report_step_complete[of srv wk api_url report_id] assms(2) at_k obtain w' where
    "wait_for_report_completion srv api_url report_id wk
       = Some (Inr (generated_of (report_poll srv api_url report_id w k)), w')"
    "requests_of (trace w') = requests_of (trace wk) @ [Get (report_history_url api_url report_id)]"
    by auto
  then show ?thesis
    using wk(1,2) by (intro exI[of _ w']) (simp add: replicate_append_same)
qed

subsection \<open>Scripted polls\<close>

lemma scripted_all: "list_all P rs \<Longrightarrow> P r \<Longrightarrow> P (scripted rs r h)"
  by (simp add: scripted_def list_all_length)

lemma scan_script_polls:
  "scan_poll (scripted [scan_status ''running'', scan_status ''running'', scan_status ''finished'']
       (refused 500)) ''u'' (PInt 41) fresh_world 0 = scan_status ''running''"
  "scan_poll (scripted [scan_status ''running'', scan_status ''running'', scan_status ''finished'']
       (refused 500)) ''u'' (PInt 41) fresh_world (Suc 0) = scan_status ''running''"
  "scan_poll (scripted [scan_status ''running'', scan_status ''running'', scan_status ''finished'']
       (refused 500)) ''u'' (PInt 41) fresh_world 2 = scan_status ''finished''"
  by (simp_all add: scan_poll_def scripted_def fresh_world_def)

lemma scan_status_kind:
  "scan_absorbed (scan_status ''running'')" "scan_absorbed (scan_status ''paused'')"
  "scan_terminal (scan_status ''finished'')"
  "status_of (scan_status ''finished'') = PStr ''finished''"
  "scan_absorbed garbled" "scan_absorbed (refused 503)" "scan_absorbed (refused 500)"
  by (simp_all add: scan_absorbed_def scan_terminal_def status_of_def scan_status_def ok_status_def
      garbled_def refused_def)

lemma report_script_polls:
  "report_poll (scripted [report_status ''started'' PNone, refused 503,
        report_status ''complete'' (PStr ''2024-01-01T00:00:00Z'')] (refused 500))
      ''u'' (PInt 12) fresh_world 0 = report_status ''started'' PNone"
  "report_poll (scripted [report_status ''started'' PNone, refused 503,
        report_status ''complete'' (PStr ''2024-01-01T00:00:00Z'')] (refused 500))
      ''u'' (PInt 12) fresh_world (Suc 0) = refused 503"
  "report_poll (scripted [report_status ''started'' PNone, refused 503,
        report_status ''complete'' (PStr ''2024-01-01T00:00:00Z'')] (refused 500))
      ''u'' (PInt 12) fresh_world 2 = report_status ''complete'' (PStr ''2024-01-01T00:00:00Z'')"
  by (simp_all add: report_poll_def scripted_def fresh_world_def)

lemma report_status_kind:
  "report_absorbed (report_status ''started'' PNone)" "report_absorbed (refused 503)"
  "report_complete (report_status ''complete'' g)"
  "generated_of (report_status ''complete'' g) = g"
  by (simp_all add: report_absorbed_def report_complete_def generated_of_def report_status_def
      ok_status_def refused_def)

subsection \<open>The claims about waiting\<close>

text \<open>
  Claim C2 (return at the first terminal poll, with the payload), as stated: the scan wait
  returns the status it observed. With the polls \<^verbatim>\<open>running\<close>, \<^verbatim>\<open>running\<close>, \<^verbatim>\<open>finished\<close>
  the call \<^verbatim>\<open>wait_for_scan_completion\<close> does return, and what it returns is \<^verbatim>\<open>None\<close>, not the
  status \<^verbatim>\<open>finished\<close> of the third poll: its \<^verbatim>\<open>return\<close> has no value.
\<close>

theorem scan_wait_returns_nothing:
  "map_option fst (wait_for_scan_completion
      (scripted [scan_status ''running'', scan_status ''running'', scan_status ''finished''] (refused 500))
      ''u'' (PInt 41) fresh_world) = Some (Inr PNone)
   \<and> status_of (scan_poll
      (scripted [scan_status ''running'', scan_status ''running'', scan_status ''finished''] (refused 500))
      ''u'' (PInt 41) fresh_world 2) = PStr ''finished''"
proof -
  let ?srv = "scripted [scan_status ''running'', scan_status ''running'', scan_status ''finished'']
                (refused 500)"
  have early: "\<forall>i<2. scan_absorbed (scan_poll ?srv ''u'' (PInt 41) fresh_world i)"
    by (simp add: less_Suc_eq numeral_2_eq_2 scan_script_polls scan_status_kind)
  have third: "scan_terminal (scan_poll ?srv ''u'' (PInt 41) fresh_world 2)"
    by (simp add: scan_script_polls scan_status_kind)
  from scan_wait_first_terminal[OF early third] show ?thesis
    by (auto simp: scan_script_polls scan_status_kind)
qed

text \<open>
  Claim C2, amended. Take a sequence of polls whose first \<open>k\<close> are absorbed (a status code
  that is not accepted, a body that is not JSON, or a JSON object without a terminal status)
  and whose next one is terminal. Then \<^verbatim>\<open>wait_for_scan_completion\<close> returns at that poll, having
  sent exactly \<open>k + 1\<close> requests; it returns \<^verbatim>\<open>None\<close>, and its last act is to print the status
  of that poll. Under the same condition on the report polls, \<^verbatim>\<open>wait_for_report_completion\<close>
  returns at the first poll whose status is \<^verbatim>\<open>complete\<close>, after exactly that many requests,
  and returns the \<^verbatim>\<open>generated\<close> value of that poll unchanged.
\<close>

theorem wait_returns_at_first_terminal_poll:
  assumes "\<forall>i<k. scan_absorbed (scan_poll srv api_url scan_id w i)"
    and "scan_terminal (scan_poll srv api_url scan_id w k)"
    and "\<forall>i<m. report_absorbed (report_poll srv' api_url' report_id w' i)"
    and "report_complete (report_poll srv' api_url' report_id w' m)"
  shows "(\<exists>w1. wait_for_scan_completion srv api_url scan_id w = Some (Inr PNone, w1)
            \<and> requests_of (trace w1)
                = requests_of (trace w) @ replicate (Suc k) (Get (scan_url api_url scan_id))
            \<and> last (trace w1)
                = Print [Lit ''Scan '', Fmt (status_of (scan_poll srv api_url scan_id w k)),
                         Lit '' successfully''])
       \<and> (\<exists>w2. wait_for_report_completion srv' api_url' report_id w'
                = Some (Inr (generated_of (report_poll srv' api_url' report_id w' m)), w2)
            \<and> requests_of (trace w2)
                = requests_of (trace w') @ replicate (Suc m) (Get (report_history_url api_url' report_id)))"
  using scan_wait_first_terminal[OF assms(1,2)] report_wait_first_complete[OF assms(3,4)]
  by (intro conjI)

theorem wait_returns_at_first_terminal_poll_witness:
  "(\<exists>w1. wait_for_scan_completion
            (scripted [scan_status ''running'', scan_status ''running'', scan_status ''finished'']
               (refused 500))
            ''u'' (PInt 41) fresh_world = Some (Inr PNone, w1)
        \<and> requests_of (trace w1)
            = [Get (scan_url ''u'' (PInt 41)), Get (scan_url ''u'' (PInt 41)), Get (scan_url ''u'' (PInt 41))]
        \<and> last (trace w1) = Print [Lit ''Scan '', Fmt (PStr ''finished''), Lit '' successfully''])
   \<and> (\<exists>w2. wait_for_report_completion
            (scripted [report_status ''started'' PNone, refused 503,
               report_status ''complete'' (PStr ''2024-01-01T00:00:00Z'')] (refused 500))
            ''u'' (PInt 12) fresh_world = Some (Inr (PStr ''2024-01-01T00:00:00Z''), w2)
        \<and> requests_of (trace w2)
            = [Get (report_history_url ''u'' (PInt 12)), Get (report_history_url ''u'' (PInt 12)),
               Get (report_history_url ''u'' (PInt 12))])"
proof -
  let ?scan = "scripted [scan_status ''running'', scan_status ''running'', scan_status ''finished'']
                 (refused 500)"
  let ?report = "scripted [report_status ''started'' PNone, refused 503,
                   report_status ''complete'' (PStr ''2024-01-01T00:00:00Z'')] (refused 500)"
  have s1: "\<forall>i<2. scan_absorbed (scan_poll ?scan ''u'' (PInt 41) fresh_world i)"
    by (simp add: less_Suc_eq numeral_2_eq_2 scan_script_polls scan_status_kind)
  have s2: "scan_terminal (scan_poll ?scan ''u'' (PInt 41) fresh_world 2)"
    by (simp add: scan_script_polls scan_status_kind)
  have r1: "\<forall>i<2. report_absorbed (report_poll ?report ''u'' (PInt 12) fresh_world i)"
    by (simp add: less_Suc_eq numeral_2_eq_2 report_script_polls report_status_kind)
  have r2: "report_complete (report_poll ?report ''u'' (PInt 12) fresh_world 2)"
    by (simp add: report_script_polls report_status_kind)
  have none: "requests_of (trace fresh_world) = []"
    by (simp add: fresh_world_def)
  have three: "replicate (Suc 2) q = [q, q, q]" for q :: request
    by (simp add: numeral_2_eq_2)
  show ?thesis
    using wait_returns_at_first_terminal_poll[OF s1 s2 r1 r2]
    by (simp only: none three append_Nil scan_script_polls scan_status_kind
        report_script_polls report_status_kind)
qed

subsection \<open>The scan loop, turn by turn\<close>

lemma sleeps_of_append [simp]: "sleeps_of (es @ fs) = sleeps_of es @ sleeps_of fs"
  by (induction es rule: sleeps_of.induct) auto

text \<open>The loop is the turn, repeated until it leaves.\<close>

lemma wait_for_scan_completion_turn:
  "wait_for_scan_completion srv api_url scan_id w
     = (case scan_turn srv api_url scan_id w of
          Inl out \<Rightarrow> Some out
        | Inr w' \<Rightarrow> wait_for_scan_completion srv api_url scan_id w')"
  by (subst wait_for_scan_completion.simps)
     (simp add: scan_turn_def Let_def split: prod.splits option.splits sum.splits)

lemma wait_for_scan_completion_turns:
  "wait_for_scan_completion srv api_url scan_id w
     = (case scan_turns srv api_url scan_id n w of
          Inl out \<Rightarrow> Some out
        | Inr w' \<Rightarrow> wait_for_scan_completion srv api_url scan_id w')"
proof (induction n arbitrary: w)
  case 0
  then show ?case by simp
next
  case (Suc n)
  show ?case
    by (subst wait_for_scan_completion_turn) (simp add: Suc.IH split: sum.splits)
qed

lemma scan_turn_absorbed:
  assumes "scan_absorbed (answer srv w (Get (scan_url api_url scan_id)))"
  shows "\<exists>w1. scan_turn srv api_url scan_id w = Inr w1
            \<and> requests_of (trace w1) = requests_of (trace w) @ [Get (scan_url api_url scan_id)]
            \<and> sleeps_of (trace w1) = sleeps_of (trace w) @ [150]"
  using assms
  by (auto simp: scan_turn_def scan_absorbed_def session_get_def
      split: option.splits pyval.splits if_splits)

lemma scan_turns_absorbed:
  "\<forall>i<n. scan_absorbed (scan_poll srv api_url scan_id w i)
    \<Longrightarrow> \<exists>wn. scan_turns srv api_url scan_id n w = Inr wn
           \<and> requests_of (trace wn) = requests_of (trace w) @ replicate n (Get (scan_url api_url scan_id))
           \<and> sleeps_of (trace wn) = sleeps_of (trace w) @ replicate n 150"
proof (induction n arbitrary: w)
  case 0
  then show ?case by simp
next
  case (Suc n)
  have "scan_absorbed (answer srv w (Get (scan_url api_url scan_id)))"
    using Suc.prems scan_poll_0[of srv api_url scan_id w] by auto
  from scan_turn_absorbed[OF this] obtain w1 where
    w1: "scan_turn srv api_url scan_id w = Inr w1"
      "requests_of (trace w1) = requests_of (trace w) @ [Get (scan_url api_url scan_id)]"
      "sleeps_of (trace w1) = sleeps_of (trace w) @ [150]"
    by blast
  have shift: "scan_poll srv api_url scan_id w1 i = scan_poll srv api_url scan_id w (Suc i)" for i
    by (rule scan_poll_shift[OF w1(2)])
  have "\<forall>i<n. scan_absorbed (scan_poll srv api_url scan_id w1 i)"
    using Suc.prems by (simp add: shift)
  from Suc.IH[OF this] obtain wn where
    "scan_turns srv api_url scan_id n w1 = Inr wn"
    "requests_of (trace wn) = requests_of (trace w1) @ replicate n (Get (scan_url api_url scan_id))"
    "sleeps_of (trace wn) = sleeps_of (trace w1) @ replicate n 150"
    by blast
  then show ?case
    using w1 by (intro exI[of _ wn]) (simp add: replicate_append_same)
qed

text \<open>
  Claim C8 (a wait without a terminal status never returns). If no poll of the scan wait is
  terminal, \<^verbatim>\<open>wait_for_scan_completion\<close> does not return, whatever value and final world one
  names; and if every poll is absorbed (which covers unknown status values and status
  codes that are not accepted), the call never comes back at all. The wait is its first
  \<open>n\<close> turns followed by the wait from where they end, and when the first \<open>n\<close> polls
  are absorbed none of these turns leaves the loop: each has sent its request and slept
  150, so that after them \<open>n\<close> requests are out and the loop is at its next poll.
\<close>

theorem scan_wait_never_returns:
  assumes "\<forall>i. \<not> scan_terminal (scan_poll srv api_url scan_id w i)"
  shows "wait_for_scan_completion srv api_url scan_id w \<noteq> Some (Inr v, w')
       \<and> ((\<forall>i. scan_absorbed (scan_poll srv api_url scan_id w i))
            \<longrightarrow> wait_for_scan_completion srv api_url scan_id w = None)
       \<and> wait_for_scan_completion srv api_url scan_id w
            = (case scan_turns srv api_url scan_id n w of
                 Inl out \<Rightarrow> Some out
               | Inr wn \<Rightarrow> wait_for_scan_completion srv api_url scan_id wn)
       \<and> ((\<forall>i<n. scan_absorbed (scan_poll srv api_url scan_id w i))
            \<longrightarrow> (\<exists>wn. scan_turns srv api_url scan_id n w = Inr wn
                    \<and> requests_of (trace wn)
                         = requests_of (trace w) @ replicate n (Get (scan_url api_url scan_id))
                    \<and> sleeps_of (trace wn) = sleeps_of (trace w) @ replicate n 150))"
proof (intro conjI impI)
  show "wait_for_scan_completion srv api_url scan_id w \<noteq> Some (Inr v, w')"
    using scan_wait_result[of srv api_url scan_id w "(Inr v, w')"] assms by blast
next
  assume "\<forall>i. scan_absorbed (scan_poll srv api_url scan_id w i)"
  then have "wait_for_scan_completion srv api_url scan_id w \<noteq> Some y" for y
    using scan_wait_result[of srv api_url scan_id w y] by blast
  then show "wait_for_scan_completion srv api_url scan_id w = None"
    by (cases "wait_for_scan_completion srv api_url scan_id w") auto
next
  show "wait_for_scan_completion srv api_url scan_id w
          = (case scan_turns srv api_url scan_id n w of
               Inl out \<Rightarrow> Some out
             | Inr wn \<Rightarrow> wait_for_scan_completion srv api_url scan_id wn)"
    by (rule wait_for_scan_completion_turns)
next
  assume "\<forall>i<n. scan_absorbed (scan_poll srv api_url scan_id w i)"
  then show "\<exists>wn. scan_turns srv api_url scan_id n w = Inr wn
          \<and> requests_of (trace wn)
               = requests_of (trace w) @ replicate n (Get (scan_url api_url scan_id))
          \<and> sleeps_of (trace wn) = sleeps_of (trace w) @ replicate n 150"
    by (rule scan_turns_absorbed)
qed

theorem scan_wait_never_returns_witness:
  "wait_for_scan_completion
     (scripted [scan_status ''running'', scan_status ''paused'', garbled, refused 503] (refused 500))
     ''u'' (PInt 41) fresh_world = None
   \<and> (\<exists>wn. scan_turns
          (scripted [scan_status ''running'', scan_status ''paused'', garbled, refused 503] (refused 500))
          ''u'' (PInt 41) 5 fresh_world = Inr wn
        \<and> requests_of (trace wn)
            = [Get (scan_url ''u'' (PInt 41)), Get (scan_url ''u'' (PInt 41)),
               Get (scan_url ''u'' (PInt 41)), Get (scan_url ''u'' (PInt 41)),
               Get (scan_url ''u'' (PInt 41))]
        \<and> sleeps_of (trace wn) = [150, 150, 150, 150, 150])"
proof -
  let ?srv = "scripted [scan_status ''running'', scan_status ''paused'', garbled, refused 503]
                (refused 500)"
  have ab: "\<forall>i. scan_absorbed (scan_poll ?srv ''u'' (PInt 41) fresh_world i)"
  proof
    fix i
    show "scan_absorbed (scan_poll ?srv ''u'' (PInt 41) fresh_world i)"
      unfolding scan_poll_def
      by (rule scripted_all[where P = scan_absorbed]) (simp_all add: scan_status_kind)
  qed
  then have nt: "\<forall>i. \<not> scan_terminal (scan_poll ?srv ''u'' (PInt 41) fresh_world i)"
    by (simp add: scan_absorbed_not_terminal)
  have ab5: "\<forall>i<5. scan_absorbed (scan_poll ?srv ''u'' (PInt 41) fresh_world i)"
    using ab by simp
  have none: "requests_of (trace fresh_world) = []" "sleeps_of (trace fresh_world) = []"
    by (simp_all add: fresh_world_def)
  have five: "replicate 5 x = [x, x, x, x, x]" for x :: 'a
    by (simp add: numeral_eq_Suc)
  note never = scan_wait_never_returns[OF nt, THEN conjunct2, THEN conjunct1, THEN mp, OF ab]
  note turns = scan_wait_never_returns[OF nt, THEN conjunct2, THEN conjunct2, THEN conjunct2,
      THEN mp, OF ab5]
  from turns obtain wn where
    "scan_turns ?srv ''u'' (PInt 41) 5 fresh_world = Inr wn"
    "requests_of (trace wn) = replicate 5 (Get (scan_url ''u'' (PInt 41)))"
    "sleeps_of (trace wn) = replicate 5 150"
    by (auto simp: none)
  then show ?thesis
    using never by (intro conjI exI[of _ wn]) (simp_all only: five)
qed

end
